theory Spec2Isabelle
  imports Complex_Main
begin

section \<open>Numbers\<close>

text \<open>
  A JavaScript number is a double: a finite value, one of the two infinities, or NaN.
  A finite value is kept as the rational it denotes; the sign of zero is not kept, since no
  comparison and no subtraction of the program tells the two zeros apart. Comparison is the
  one of the language: it is exact on finite values, and every comparison with NaN is false.
\<close>

datatype jsnum = NaN | NegInf | Fin rat | PosInf

fun js_gt :: "jsnum \<Rightarrow> jsnum \<Rightarrow> bool" where
  "js_gt NaN _ = False"
| "js_gt _ NaN = False"
| "js_gt (Fin a) (Fin b) = (a > b)"
| "js_gt PosInf PosInf = False"
| "js_gt PosInf _ = True"
| "js_gt NegInf _ = False"
| "js_gt (Fin _) NegInf = True"
| "js_gt (Fin _) PosInf = False"

subsection \<open>Rounding to a double\<close>

text \<open>
  The result of an arithmetic operation and the value of a decimal literal are the exact
  result rounded to the nearest double, ties to the even significand. A positive rational
  is first written as \<open>a * 2 ^ e\<close> with \<open>2 ^ 52 \<le> a < 2 ^ 53\<close>, or with \<open>e = - 1074\<close> and
  \<open>a < 2 ^ 52\<close> for a subnormal; \<open>a\<close> is then rounded to an integer. A result of
  \<open>2 ^ 1024\<close> or more is an infinity.
\<close>

function scaleDown :: "rat \<Rightarrow> int \<Rightarrow> rat \<times> int" where
  "scaleDown a e = (if 2 ^ 53 \<le> a then scaleDown (a / 2) (e + 1) else (a, e))"
  by pat_completeness auto
termination
proof (relation "measure (\<lambda>(a, e). nat \<lfloor>a\<rfloor>)")
  show "wf (measure (\<lambda>(a, e). nat \<lfloor>a\<rfloor>))" by simp
next
  fix a :: rat and e :: int
  assume a: "2 ^ 53 \<le> a"
  have "a / 2 \<le> a - 1" using a by simp
  moreover have "a - 1 < of_int \<lfloor>a\<rfloor>" by linarith
  ultimately have "of_int \<lfloor>a / 2\<rfloor> < (of_int \<lfloor>a\<rfloor> :: rat)" by linarith
  then have "\<lfloor>a / 2\<rfloor> < \<lfloor>a\<rfloor>" by simp
  moreover have "0 < \<lfloor>a\<rfloor>" using a by (simp add: floor_less_iff not_less)
  ultimately show "((a / 2, e + 1), (a, e)) \<in> measure (\<lambda>(a, e). nat \<lfloor>a\<rfloor>)" by simp
qed

function scaleUp :: "rat \<Rightarrow> int \<Rightarrow> rat \<times> int" where
  "scaleUp a e = (if a < 2 ^ 52 \<and> - 1074 < e then scaleUp (a * 2) (e - 1) else (a, e))"
  by pat_completeness auto
termination
  by (relation "measure (\<lambda>(a, e). nat (e + 1074))") auto

declare scaleDown.simps [simp del] scaleUp.simps [simp del]

definition roundHalfEven :: "rat \<Rightarrow> int" where
  "roundHalfEven a =
     (let f = \<lfloor>a\<rfloor>; r = a - of_int f
      in if 1 / 2 < r \<or> (r = 1 / 2 \<and> odd f) then f + 1 else f)"

definition round_double :: "rat \<Rightarrow> jsnum" where
  "round_double q =
     (if q = 0 then Fin 0
      else
        let (a0, e0) = scaleDown \<bar>q\<bar> 0;
            (a, e) = scaleUp a0 e0;
            m = roundHalfEven a
        in if 971 < e \<or> (e = 971 \<and> 2 ^ 53 \<le> m) then (if q < 0 then NegInf else PosInf)
           else Fin (sgn q * of_int m * 2 powi e))"

text \<open>Subtraction: the exact difference of two finite values, rounded.\<close>

fun js_sub :: "jsnum \<Rightarrow> jsnum \<Rightarrow> jsnum" where
  "js_sub NaN _ = NaN"
| "js_sub _ NaN = NaN"
| "js_sub (Fin a) (Fin b) = round_double (a - b)"
| "js_sub PosInf PosInf = NaN"
| "js_sub NegInf NegInf = NaN"
| "js_sub PosInf _ = PosInf"
| "js_sub NegInf _ = NegInf"
| "js_sub (Fin _) PosInf = NegInf"
| "js_sub (Fin _) NegInf = PosInf"

subsection \<open>parseFloat\<close>

text \<open>
  \<^verbatim>\<open>parseFloat\<close> converts its argument to a string, skips leading white space and reads the
  longest prefix that is a decimal literal: an optional sign, then \<^verbatim>\<open>Infinity\<close> or digits
  with an optional fraction and an optional exponent. No such prefix gives NaN; otherwise
  the result is the value of the literal rounded to a double. Strings are the UTF-8 bytes of
  the text: a white space character of the language is one of the bytes 9 to 13 and 32, or
  the encoding of U+00A0, U+1680, U+2000 to U+200A, U+2028, U+2029, U+202F, U+205F, U+3000
  or U+FEFF.
\<close>

definition isDigit :: "char \<Rightarrow> bool" where
  "isDigit c = (48 \<le> (of_char c :: nat) \<and> (of_char c :: nat) \<le> 57)"

text \<open>The number of bytes of the white space character a string starts with, 0 when there is none.\<close>

definition whiteSpaceLength :: "string \<Rightarrow> nat" where
  "whiteSpaceLength s =
     (case map (of_char :: char \<Rightarrow> nat) (take 3 s) of
        [] \<Rightarrow> 0
      | b1 # bs \<Rightarrow>
          if b1 \<in> {9, 10, 11, 12, 13, 32} then 1
          else if b1 = 194 \<and> take 1 bs = [160] then 2
          else if b1 = 225 \<and> bs = [154, 128] then 3
          else if b1 = 226 \<and> bs \<in> {[128, 168], [128, 169], [128, 175], [129, 159]} then 3
          else if b1 = 226 \<and> take 1 bs = [128] \<and> length bs = 2 \<and>
                  128 \<le> last bs \<and> last bs \<le> 138 then 3
          else if b1 = 227 \<and> bs = [128, 128] then 3
          else if b1 = 239 \<and> bs = [187, 191] then 3
          else 0)"

function skipWhiteSpace :: "string \<Rightarrow> string" where
  "skipWhiteSpace s =
     (if whiteSpaceLength s = 0 then s else skipWhiteSpace (drop (whiteSpaceLength s) s))"
  by pat_completeness auto
termination
proof (relation "measure length")
  show "wf (measure length)" by simp
next
  fix s :: string
  assume "whiteSpaceLength s \<noteq> 0"
  then have "s \<noteq> []" by (auto simp: whiteSpaceLength_def)
  with \<open>whiteSpaceLength s \<noteq> 0\<close>
  show "(drop (whiteSpaceLength s) s, s) \<in> measure length" by (cases s) auto
qed

declare skipWhiteSpace.simps [simp del]

definition digitsValue :: "string \<Rightarrow> nat" where
  "digitsValue ds = foldl (\<lambda>a c. 10 * a + ((of_char c :: nat) - 48)) 0 ds"

text \<open>The exponent part, when the rest of the input starts with a complete one.\<close>

fun exponentPart :: "string \<Rightarrow> int" where
  "exponentPart (e # r) =
     (if e = CHR ''e'' \<or> e = CHR ''E'' then
        (case r of
           [] \<Rightarrow> 0
         | s # r' \<Rightarrow>
             if s = CHR ''-'' then
               (if takeWhile isDigit r' = [] then 0 else - int (digitsValue (takeWhile isDigit r')))
             else if s = CHR ''+'' then int (digitsValue (takeWhile isDigit r'))
             else int (digitsValue (takeWhile isDigit r)))
      else 0)"
| "exponentPart [] = 0"

definition scale10 :: "rat \<Rightarrow> int \<Rightarrow> rat" where
  "scale10 m e = (if 0 \<le> e then m * 10 ^ nat e else m / 10 ^ nat (- e))"

definition parseUnsigned :: "string \<Rightarrow> jsnum" where
  "parseUnsigned s =
     (if take 8 s = ''Infinity'' then PosInf
      else
        let ip = takeWhile isDigit s; r1 = dropWhile isDigit s in
        (case r1 of
           [] \<Rightarrow> if ip = [] then NaN else round_double (of_nat (digitsValue ip))
         | c # r2 \<Rightarrow>
             if c = CHR ''.'' then
               (let fp = takeWhile isDigit r2; r3 = dropWhile isDigit r2 in
                if ip = [] \<and> fp = [] then NaN
                else round_double (scale10 (of_nat (digitsValue (ip @ fp)))
                                     (exponentPart r3 - int (length fp))))
             else if ip = [] then NaN
             else round_double (scale10 (of_nat (digitsValue ip)) (exponentPart r1))))"

fun js_neg :: "jsnum \<Rightarrow> jsnum" where
  "js_neg NaN = NaN"
| "js_neg NegInf = PosInf"
| "js_neg (Fin a) = Fin (- a)"
| "js_neg PosInf = NegInf"

definition parseFloatString :: "string \<Rightarrow> jsnum" where
  "parseFloatString s =
     (case skipWhiteSpace s of
        [] \<Rightarrow> NaN
      | c # r \<Rightarrow>
          if c = CHR ''-'' then js_neg (parseUnsigned r)
          else if c = CHR ''+'' then parseUnsigned r
          else parseUnsigned (c # r))"

text \<open>
  The argument of \<^verbatim>\<open>parseFloat\<close> in the program is either a string (from the cache or
  from a database row) or a number (a configured default). A number is printed and read
  back, which returns the number itself.
\<close>

datatype jsval = JStr string | JNum jsnum

fun parseFloat :: "jsval \<Rightarrow> jsnum" where
  "parseFloat (JStr s) = parseFloatString s"
| "parseFloat (JNum n) = n"

section \<open>Configuration (shared/config.js)\<close>

record thresholds =
  warning :: jsnum
  critical :: jsnum
  target :: jsnum

text \<open>The default thresholds, used for a component the cache does not hold.\<close>

definition config_thresholds_default :: thresholds where
  "config_thresholds_default = \<lparr>warning = Fin (-10), critical = Fin (-5), target = Fin (-18)\<rparr>"

text \<open>Alert types and action types are the strings the events carry.\<close>

definition alertTypes_NORMAL :: string where "alertTypes_NORMAL = ''NORMAL''"
definition alertTypes_WARNING :: string where "alertTypes_WARNING = ''WARNING''"
definition alertTypes_CRITICAL :: string where "alertTypes_CRITICAL = ''CRITICAL''"
definition alertTypes_TREND_ANOMALY :: string where "alertTypes_TREND_ANOMALY = ''TREND_ANOMALY''"

definition actionTypes_LOG :: string where "actionTypes_LOG = ''LOG''"
definition actionTypes_NOTIFY_WARNING :: string where "actionTypes_NOTIFY_WARNING = ''NOTIFY_WARNING''"
definition actionTypes_NOTIFY_CRITICAL :: string where "actionTypes_NOTIFY_CRITICAL = ''NOTIFY_CRITICAL''"
definition actionTypes_ADJUST_TEMPERATURE :: string where
  "actionTypes_ADJUST_TEMPERATURE = ''ADJUST_TEMPERATURE''"
definition actionTypes_TREND_ALERT :: string where "actionTypes_TREND_ALERT = ''TREND_ALERT''"

text \<open>The trend parameters of the worker that are constants of the configuration.\<close>

definition trendMinReadings :: nat where "trendMinReadings = 3"
definition trendMinRising :: nat where "trendMinRising = 2"
definition trendMinIncrease :: jsnum where "trendMinIncrease = Fin 2"

text \<open>The settings read from the process environment.\<close>

record worker_config =
  trendWindowMinutes :: int

record executor_config =
  webhook_enabled :: bool
  webhook_url :: "string option"

section \<open>Events\<close>

text \<open>
  The message of an evaluation is a template string with numbers printed into it. The
  printing of numbers is not modelled: a formatted message is kept as its template and its
  arguments.
\<close>

datatype message =
    Text string
  | TrendText jsnum int
  | ThresholdText string string "string option" jsnum jsnum

record telemetry =
  ship_id :: string
  sensor_id :: "string option"
  temp :: jsnum
  timestamp :: string

record evaluation =
  alert_type :: string
  thresholds :: "thresholds option"
  actions :: "string list"
  message :: "message option"

record event =
  event_type :: string
  telemetry :: telemetry
  evaluation :: evaluation
  processed_at :: string

section \<open>Errors and effects\<close>

text \<open>
  Every function that awaits an external service takes the world and returns it, with
  either an error (the exception thrown) or a value. Whether a call to a service fails is
  decided by the environment: each service has a script of outcomes, one per call,
  \<open>True\<close> for a call that is rejected; past the end of the script calls succeed. Console
  output is not part of the world.
\<close>

datatype error = SyntaxError | TypeError | RedisError | DbError | SqsError

type_synonym ('w, 'a) io = "'w \<Rightarrow> (error + 'a) \<times> 'w"

definition ret :: "'a \<Rightarrow> ('w, 'a) io" where
  "ret x = (\<lambda>w. (Inr x, w))"

definition raise :: "error \<Rightarrow> ('w, 'a) io" where
  "raise e = (\<lambda>w. (Inl e, w))"

definition bind :: "('w, 'a) io \<Rightarrow> ('a \<Rightarrow> ('w, 'b) io) \<Rightarrow> ('w, 'b) io" where
  "bind m f = (\<lambda>w. case m w of (Inl e, w') \<Rightarrow> (Inl e, w') | (Inr x, w') \<Rightarrow> f x w')"

definition next_fault :: "bool list \<Rightarrow> bool \<times> bool list" where
  "next_fault fs = (case fs of [] \<Rightarrow> (False, []) | f # r \<Rightarrow> (f, r))"

text \<open>
  A queue message. Its body is JSON text, represented by the value it parses to;
  \<open>None\<close> is a body that \<^verbatim>\<open>JSON.parse\<close> rejects.
\<close>

record 'a sqs_message =
  MessageId :: string
  ReceiptHandle :: string
  Body :: "'a option"

record entry =
  entry_Id :: string
  entry_ReceiptHandle :: string

definition JSON_parse :: "'a option \<Rightarrow> ('w, 'a) io" where
  "JSON_parse body = (case body of None \<Rightarrow> raise SyntaxError | Some v \<Rightarrow> ret v)"

section \<open>Component B: the worker (worker/worker.js)\<close>

text \<open>
  The world of the worker: the Redis cache, the answer of the database to the trend query
  of a ship (the temperature column of the rows, newest first, as the strings the driver
  returns for a DECIMAL column), the events passed to the send call of the events queue
  (whatever its outcome), the events queue, the delete calls made on the telemetry queue,
  and the outcome scripts of the three services.
\<close>

record worker_world =
  redis :: "string \<rightharpoonup> string"
  recent_readings :: "string \<Rightarrow> string list"
  send_calls :: "event list"
  events_queue :: "event list"
  delete_calls :: "entry list list"
  redis_faults :: "bool list"
  pg_faults :: "bool list"
  sqs_faults :: "bool list"
  clock :: string

definition redis_get :: "string \<Rightarrow> (worker_world, string option) io" where
  "redis_get key w =
     (let (failed, rest) = next_fault (redis_faults w); w' = w\<lparr>redis_faults := rest\<rparr>
      in if failed then (Inl RedisError, w') else (Inr (redis w key), w'))"

definition sqs_send_event :: "event \<Rightarrow> (worker_world, unit) io" where
  "sqs_send_event e w =
     (let (failed, rest) = next_fault (sqs_faults w);
          w' = w\<lparr>sqs_faults := rest, send_calls := send_calls w @ [e]\<rparr>
      in if failed then (Inl SqsError, w')
         else (Inr (), w'\<lparr>events_queue := events_queue w' @ [e]\<rparr>))"

definition db_query_recent :: "string \<Rightarrow> (worker_world, string list) io" where
  "db_query_recent shipId w =
     (let (failed, rest) = next_fault (pg_faults w); w' = w\<lparr>pg_faults := rest\<rparr>
      in if failed then (Inl DbError, w') else (Inr (recent_readings w shipId), w'))"

definition now :: "(worker_world, string) io" where
  "now w = (Inr (clock w), w)"

text \<open>\<^verbatim>\<open>stored || dflt\<close>: the stored string unless it is null or empty.\<close>

definition orDefault :: "string option \<Rightarrow> jsnum \<Rightarrow> jsval" where
  "orDefault stored dflt =
     (case stored of None \<Rightarrow> JNum dflt | Some s \<Rightarrow> if s = [] then JNum dflt else JStr s)"

definition getThresholds :: "string \<Rightarrow> (worker_world, thresholds) io" where
  "getThresholds shipId =
     bind (redis_get (''threshold:'' @ shipId @ '':warning'')) (\<lambda>warning_s.
     bind (redis_get (''threshold:'' @ shipId @ '':critical'')) (\<lambda>critical_s.
     bind (redis_get (''threshold:'' @ shipId @ '':target'')) (\<lambda>target_s.
     ret \<lparr>warning = parseFloat (orDefault warning_s (warning config_thresholds_default)),
          critical = parseFloat (orDefault critical_s (critical config_thresholds_default)),
          target = parseFloat (orDefault target_s (target config_thresholds_default))\<rparr>)))"

definition determineAlertType :: "jsnum \<Rightarrow> thresholds \<Rightarrow> string" where
  "determineAlertType tempv ths =
     (if js_gt tempv (critical ths) then alertTypes_CRITICAL
      else if js_gt tempv (warning ths) then alertTypes_WARNING
      else alertTypes_NORMAL)"

definition determineActions :: "string \<Rightarrow> string list" where
  "determineActions alertType =
     (if alertType = alertTypes_CRITICAL then
        [actionTypes_LOG, actionTypes_ADJUST_TEMPERATURE, actionTypes_NOTIFY_CRITICAL]
      else if alertType = alertTypes_WARNING then [actionTypes_LOG, actionTypes_NOTIFY_WARNING]
      else [actionTypes_LOG])"

definition publishEvent :: "event \<Rightarrow> (worker_world, unit) io" where
  "publishEvent e = sqs_send_event e"

text \<open>The counting loop of the trend check, with its index and its counter.\<close>

function risingLoop :: "jsnum list \<Rightarrow> nat \<Rightarrow> nat \<Rightarrow> nat" where
  "risingLoop temps i rising =
     (if i < length temps - 1 then
        risingLoop temps (i + 1) (if js_gt (temps ! i) (temps ! (i + 1)) then rising + 1 else rising)
      else rising)"
  by pat_completeness auto
termination
  by (relation "measure (\<lambda>(temps, i, rising). length temps - i)") auto

declare risingLoop.simps [simp del]

text \<open>
  The event object built in the trend check, from the newest temperature of the sample
  and the increase over the sample.
\<close>

definition trendEvent :: "worker_config \<Rightarrow> string \<Rightarrow> jsnum \<Rightarrow> jsnum \<Rightarrow> string \<Rightarrow> event" where
  "trendEvent cfg shipId newest increase t =
     \<lparr>event_type = ''TREND_ANOMALY'',
      telemetry = \<lparr>ship_id = shipId, sensor_id = None, temp = newest, timestamp = t\<rparr>,
      evaluation = \<lparr>alert_type = alertTypes_TREND_ANOMALY, thresholds = None,
                    actions = [actionTypes_TREND_ALERT],
                    message = Some (TrendText increase (trendWindowMinutes cfg))\<rparr>,
      processed_at = t\<rparr>"

definition checkTemperatureTrend :: "worker_config \<Rightarrow> string \<Rightarrow> (worker_world, unit) io" where
  "checkTemperatureTrend cfg shipId =
     bind (db_query_recent shipId) (\<lambda>rows.
       if length rows < trendMinReadings then ret ()
       else
         let temps = map (\<lambda>r. parseFloat (JStr r)) rows;
             rising = risingLoop temps 0 0
         in if rising \<ge> trendMinRising then
              (let increase = js_sub (temps ! 0) (temps ! (length temps - 1))
               in if js_gt increase trendMinIncrease then
                    bind now (\<lambda>t. publishEvent (trendEvent cfg shipId (temps ! 0) increase t))
                  else ret ())
            else ret ())"

text \<open>The event object built in \<^verbatim>\<open>processTelemetry\<close> for a reading and its thresholds.\<close>

definition telemetryEvent :: "telemetry \<Rightarrow> thresholds \<Rightarrow> string \<Rightarrow> event" where
  "telemetryEvent tel ths t =
     (let alertType = determineAlertType (temp tel) ths;
          acts = determineActions alertType
      in \<lparr>event_type = ''TELEMETRY_PROCESSED'',
          telemetry = tel,
          evaluation = \<lparr>alert_type = alertType, thresholds = Some ths, actions = acts,
                        message = None\<rparr>,
          processed_at = t\<rparr>)"

definition processTelemetry :: "worker_config \<Rightarrow> telemetry \<Rightarrow> (worker_world, unit) io" where
  "processTelemetry cfg tel =
     bind (getThresholds (ship_id tel)) (\<lambda>ths.
     bind now (\<lambda>t.
     bind (publishEvent (telemetryEvent tel ths t)) (\<lambda>_.
     checkTemperatureTrend cfg (ship_id tel))))"

section \<open>The consumer loop (worker/worker.js, executor)\<close>

text \<open>
  The body of the \<^verbatim>\<open>for\<close> loop over the received messages is the same in both
  components, up to the function that handles one message: the handler runs inside a
  \<^verbatim>\<open>try\<close>; when it returns, the entry of the message is pushed on \<^verbatim>\<open>processed\<close>; when it
  throws, the error is caught and the loop goes on with the next message.
\<close>

fun processMessages ::
  "('a sqs_message \<Rightarrow> ('w, unit) io) \<Rightarrow> 'a sqs_message list \<Rightarrow> entry list \<Rightarrow> 'w \<Rightarrow> entry list \<times> 'w"
where
  "processMessages handler [] processed w = (processed, w)"
| "processMessages handler (msg # msgs) processed w =
     (case handler msg w of
        (Inr _, w') \<Rightarrow>
          processMessages handler msgs
            (processed @ [\<lparr>entry_Id = MessageId msg, entry_ReceiptHandle = ReceiptHandle msg\<rparr>]) w'
      | (Inl err, w') \<Rightarrow> processMessages handler msgs processed w')"

definition workerHandler :: "worker_config \<Rightarrow> telemetry sqs_message \<Rightarrow> (worker_world, unit) io" where
  "workerHandler cfg msg = bind (JSON_parse (Body msg)) (\<lambda>tel. processTelemetry cfg tel)"

text \<open>
  One iteration of the \<^verbatim>\<open>while (true)\<close> loop of the worker, on the response of the
  receive call. An error of the receive call or of the delete call is caught by the outer
  \<^verbatim>\<open>try\<close> and ends the iteration. The delete call is recorded when it is made.
\<close>

definition workerIteration ::
  "worker_config \<Rightarrow> telemetry sqs_message list option \<Rightarrow> worker_world \<Rightarrow> worker_world" where
  "workerIteration cfg response w =
     (let (failed, rest) = next_fault (sqs_faults w); w1 = w\<lparr>sqs_faults := rest\<rparr>
      in if failed then w1
         else
           (case response of
              None \<Rightarrow> w1
            | Some msgs \<Rightarrow>
                if length msgs > 0 then
                  (let (processed, w2) = processMessages (workerHandler cfg) msgs [] w1
                   in if length processed > 0 then
                        w2\<lparr>delete_calls := delete_calls w2 @ [processed],
                           sqs_faults := snd (next_fault (sqs_faults w2))\<rparr>
                      else w2)
                else w1))"

section \<open>Component C: the executor\<close>

record reading_row =
  r_ship_id :: string
  r_sensor_id :: "string option"
  r_temperature :: jsnum
  r_timestamp :: string
  r_created_at :: string

text \<open>
  The rows of the three tables, with the columns the inserts give. A column is \<open>None\<close>
  when the insert passes no value for it (an \<^verbatim>\<open>undefined\<close> parameter, stored as NULL).
\<close>

record alert_row =
  a_ship_id :: string
  a_temperature :: jsnum
  a_threshold :: "jsnum option"
  a_alert_type :: string
  a_action_taken :: string
  a_message :: message
  a_created_at :: string

record action_row =
  t_ship_id :: string
  t_action_type :: string
  t_current_temp :: jsnum
  t_target_temp :: jsnum
  t_status :: string
  t_created_at :: string

record webhook_post =
  p_url :: string
  p_alert_type :: string
  p_ship_id :: string
  p_temperature :: jsnum
  p_timestamp :: string
  p_thresholds :: "thresholds option"

text \<open>
  The world of the executor: the three tables it inserts into, the webhook requests it
  has made, the delete calls made on the events queue, and the outcome scripts of the
  database, of the webhook and of the queue.
\<close>

record executor_world =
  telemetry_readings :: "reading_row list"
  alerts :: "alert_row list"
  temperature_actions :: "action_row list"
  webhook_posts :: "webhook_post list"
  x_delete_calls :: "entry list list"
  x_db_faults :: "bool list"
  x_fetch_faults :: "bool list"
  x_sqs_faults :: "bool list"
  x_clock :: string

definition x_now :: "(executor_world, string) io" where
  "x_now w = (Inr (x_clock w), w)"

text \<open>An insert: the database either rejects the query or appends the row.\<close>

definition db_insert :: "(executor_world \<Rightarrow> executor_world) \<Rightarrow> (executor_world, unit) io" where
  "db_insert ins w =
     (let (failed, rest) = next_fault (x_db_faults w); w' = w\<lparr>x_db_faults := rest\<rparr>
      in if failed then (Inl DbError, w') else (Inr (), ins w'))"

definition storeTelemetry :: "telemetry \<Rightarrow> (executor_world, unit) io" where
  "storeTelemetry tel =
     bind x_now (\<lambda>t.
     db_insert (\<lambda>w. w\<lparr>telemetry_readings := telemetry_readings w @
       [\<lparr>r_ship_id = ship_id tel, r_sensor_id = sensor_id tel, r_temperature = temp tel,
         r_timestamp = timestamp tel, r_created_at = t\<rparr>]\<rparr>))"

text \<open>
  Reading a component of \<^verbatim>\<open>evaluation.thresholds\<close> throws a TypeError when the
  evaluation has no thresholds.
\<close>

definition thresholdOf :: "evaluation \<Rightarrow> (thresholds \<Rightarrow> jsnum) \<Rightarrow> ('w, jsnum) io" where
  "thresholdOf ev component =
     (case thresholds ev of None \<Rightarrow> raise TypeError | Some ths \<Rightarrow> ret (component ths))"

text \<open>\<^verbatim>\<open>evaluation.message || dflt\<close>: the message unless it is missing or the empty string.\<close>

definition messageOr :: "message option \<Rightarrow> message \<Rightarrow> message" where
  "messageOr m dflt = (case m of None \<Rightarrow> dflt | Some x \<Rightarrow> if x = Text [] then dflt else x)"

definition storeAlert :: "telemetry \<Rightarrow> evaluation \<Rightarrow> string \<Rightarrow> (executor_world, unit) io" where
  "storeAlert tel ev action =
     bind (if alert_type ev = alertTypes_CRITICAL then thresholdOf ev critical
           else if alert_type ev = alertTypes_WARNING then thresholdOf ev warning
           else ret (Fin 0)) (\<lambda>threshold.
     let msg = messageOr (message ev)
                 (ThresholdText (alert_type ev) (ship_id tel) (sensor_id tel) (temp tel) threshold)
     in bind x_now (\<lambda>t.
        db_insert (\<lambda>w. w\<lparr>alerts := alerts w @
          [\<lparr>a_ship_id = ship_id tel, a_temperature = temp tel, a_threshold = Some threshold,
            a_alert_type = alert_type ev, a_action_taken = action, a_message = msg,
            a_created_at = t\<rparr>]\<rparr>)))"

definition storeTemperatureAction :: "telemetry \<Rightarrow> jsnum \<Rightarrow> (executor_world, unit) io" where
  "storeTemperatureAction tel targetTemp =
     bind x_now (\<lambda>t.
     db_insert (\<lambda>w. w\<lparr>temperature_actions := temperature_actions w @
       [\<lparr>t_ship_id = ship_id tel, t_action_type = actionTypes_ADJUST_TEMPERATURE,
         t_current_temp = temp tel, t_target_temp = targetTemp, t_status = ''PENDING'',
         t_created_at = t\<rparr>]\<rparr>))"

text \<open>
  The webhook request is made inside a \<^verbatim>\<open>try\<close> whose handler only logs: whether the request
  fails or not, the function returns.
\<close>

definition sendNotification ::
  "executor_config \<Rightarrow> telemetry \<Rightarrow> evaluation \<Rightarrow> (executor_world, unit) io" where
  "sendNotification cfg tel ev w =
     (case webhook_url cfg of
        None \<Rightarrow> (Inr (), w)
      | Some url \<Rightarrow>
          if \<not> webhook_enabled cfg \<or> url = [] then (Inr (), w)
          else
            (let (failed, rest) = next_fault (x_fetch_faults w)
             in (Inr (), w\<lparr>x_fetch_faults := rest,
                           webhook_posts := webhook_posts w @
                             [\<lparr>p_url = url, p_alert_type = alert_type ev, p_ship_id = ship_id tel,
                               p_temperature = temp tel, p_timestamp = timestamp tel,
                               p_thresholds = thresholds ev\<rparr>]\<rparr>)))"

definition whenever :: "bool \<Rightarrow> ('w, unit) io \<Rightarrow> ('w, unit) io" where
  "whenever b m = (if b then m else ret ())"

text \<open>The body of the loop of \<^verbatim>\<open>processEvent\<close>, for one action of the evaluation.\<close>

definition processAction ::
  "executor_config \<Rightarrow> telemetry \<Rightarrow> evaluation \<Rightarrow> string \<Rightarrow> (executor_world, unit) io" where
  "processAction cfg tel ev action =
     bind (whenever (action = actionTypes_LOG) (storeTelemetry tel)) (\<lambda>_.
     bind (whenever (action = actionTypes_NOTIFY_WARNING)
             (bind (storeAlert tel ev action) (\<lambda>_. sendNotification cfg tel ev))) (\<lambda>_.
     bind (whenever (action = actionTypes_NOTIFY_CRITICAL)
             (bind (storeAlert tel ev action) (\<lambda>_. sendNotification cfg tel ev))) (\<lambda>_.
     bind (whenever (action = actionTypes_ADJUST_TEMPERATURE)
             (bind (storeAlert tel ev action) (\<lambda>_.
              bind (thresholdOf ev target) (\<lambda>tg. storeTemperatureAction tel tg)))) (\<lambda>_.
     whenever (action = actionTypes_TREND_ALERT) (storeAlert tel ev action)))))"

fun processActions ::
  "executor_config \<Rightarrow> telemetry \<Rightarrow> evaluation \<Rightarrow> string list \<Rightarrow> (executor_world, unit) io" where
  "processActions cfg tel ev [] = ret ()"
| "processActions cfg tel ev (action # rest) =
     bind (processAction cfg tel ev action) (\<lambda>_. processActions cfg tel ev rest)"

definition processEvent :: "executor_config \<Rightarrow> event \<Rightarrow> (executor_world, unit) io" where
  "processEvent cfg e = processActions cfg (telemetry e) (evaluation e) (actions (evaluation e))"

definition executorHandler :: "executor_config \<Rightarrow> event sqs_message \<Rightarrow> (executor_world, unit) io" where
  "executorHandler cfg msg = bind (JSON_parse (Body msg)) (\<lambda>e. processEvent cfg e)"

definition executorIteration ::
  "executor_config \<Rightarrow> event sqs_message list option \<Rightarrow> executor_world \<Rightarrow> executor_world" where
  "executorIteration cfg response w =
     (let (failed, rest) = next_fault (x_sqs_faults w); w1 = w\<lparr>x_sqs_faults := rest\<rparr>
      in if failed then w1
         else
           (case response of
              None \<Rightarrow> w1
            | Some msgs \<Rightarrow>
                if length msgs > 0 then
                  (let (processed, w2) = processMessages (executorHandler cfg) msgs [] w1
                   in if length processed > 0 then
                        w2\<lparr>x_delete_calls := x_delete_calls w2 @ [processed],
                           x_sqs_faults := snd (next_fault (x_sqs_faults w2))\<rparr>
                      else w2)
                else w1))"

section \<open>Notions of the specification\<close>

text \<open>
  The rising steps of a sample, in the words of the specification: the adjacent pairs
  (newer, older) of the newest-first list with newer greater than older.
\<close>

definition spec_rising_steps :: "jsnum list \<Rightarrow> nat" where
  "spec_rising_steps temps =
     length (filter (\<lambda>(newer, older). js_gt newer older) (zip temps (tl temps)))"

text \<open>
  The worlds in which the messages of a batch are handled, one after the other, and the
  messages of the batch whose handling returns without an error.
\<close>

fun itemWorlds :: "('m \<Rightarrow> ('w, unit) io) \<Rightarrow> 'm list \<Rightarrow> 'w \<Rightarrow> 'w list" where
  "itemWorlds handler [] w = []"
| "itemWorlds handler (m # ms) w = w # itemWorlds handler ms (snd (handler m w))"

definition succeeded :: "error + 'a \<Rightarrow> bool" where
  "succeeded r = (case r of Inl _ \<Rightarrow> False | Inr _ \<Rightarrow> True)"

definition completed :: "('m \<Rightarrow> ('w, unit) io) \<Rightarrow> 'm list \<Rightarrow> 'w \<Rightarrow> 'm list" where
  "completed handler ms w =
     map fst (filter (\<lambda>(m, s). succeeded (fst (handler m s))) (zip ms (itemWorlds handler ms w)))"

definition entryOf :: "'a sqs_message \<Rightarrow> entry" where
  "entryOf msg = \<lparr>entry_Id = MessageId msg, entry_ReceiptHandle = ReceiptHandle msg\<rparr>"

text \<open>The part of the world of the executor that the database holds.\<close>

definition dbView ::
  "executor_world \<Rightarrow> reading_row list \<times> alert_row list \<times> action_row list \<times> bool list \<times> string" where
  "dbView w = (telemetry_readings w, alerts w, temperature_actions w, x_db_faults w, x_clock w)"

text \<open>
  Two computations of the executor agree on the database when, started in worlds with the
  same database part, they return the same result and leave the same database part.
\<close>

definition agree :: "(executor_world, 'a) io \<Rightarrow> (executor_world, 'a) io \<Rightarrow> bool" where
  "agree m m' \<longleftrightarrow>
     (\<forall>w w'. dbView w = dbView w' \<longrightarrow>
        fst (m w) = fst (m' w') \<and> dbView (snd (m w)) = dbView (snd (m' w')))"

text \<open>The actions for which \<^verbatim>\<open>processEvent\<close> stores an alert.\<close>

definition alertActions :: "string list" where
  "alertActions = [actionTypes_NOTIFY_WARNING, actionTypes_NOTIFY_CRITICAL,
                   actionTypes_ADJUST_TEMPERATURE, actionTypes_TREND_ALERT]"

text \<open>
  The alert row stored for an evaluation whose alert type is neither CRITICAL nor
  WARNING: its threshold column is the number 0.
\<close>

definition plainAlert :: "telemetry \<Rightarrow> evaluation \<Rightarrow> string \<Rightarrow> string \<Rightarrow> alert_row" where
  "plainAlert tel ev t action =
     \<lparr>a_ship_id = ship_id tel, a_temperature = temp tel, a_threshold = Some (Fin 0),
      a_alert_type = alert_type ev, a_action_taken = action,
      a_message = messageOr (message ev)
        (ThresholdText (alert_type ev) (ship_id tel) (sensor_id tel) (temp tel) (Fin 0)),
      a_created_at = t\<rparr>"

section \<open>Example inputs\<close>

definition example_worker_world :: worker_world where
  "example_worker_world =
     \<lparr>redis = Map.empty, recent_readings = (\<lambda>_. []), send_calls = [], events_queue = [],
      delete_calls = [],
      redis_faults = [], pg_faults = [], sqs_faults = [], clock = ''2026-01-01T00:00:00.000Z''\<rparr>"

text \<open>A cache that holds the critical threshold of a ship and not its warning threshold.\<close>

definition partial_cache_world :: worker_world where
  "partial_cache_world =
     example_worker_world\<lparr>redis := [''threshold:ship_1:critical'' \<mapsto> ''-4.5'']\<rparr>"

text \<open>A cache that holds the empty string as the warning threshold of a ship.\<close>

definition empty_string_cache_world :: worker_world where
  "empty_string_cache_world =
     example_worker_world\<lparr>redis := [''threshold:ship_1:warning'' \<mapsto> [] ]\<rparr>"

text \<open>A database whose recent readings of every ship are -3, -4, -6, -9, newest first.\<close>

definition rising_world :: worker_world where
  "rising_world =
     example_worker_world\<lparr>recent_readings := (\<lambda>_. [''-3.00'', ''-4.00'', ''-6.00'', ''-9.00''])\<rparr>"

text \<open>
  A database whose recent readings of every ship are -15.60, -16.60, -17.60, newest first:
  as decimals, the newest exceeds the oldest by exactly 2.
\<close>

definition rounding_world :: worker_world where
  "rounding_world =
     example_worker_world\<lparr>recent_readings := (\<lambda>_. [''-15.60'', ''-16.60'', ''-17.60''])\<rparr>"

definition example_worker_config :: worker_config where
  "example_worker_config = \<lparr>trendWindowMinutes = 5\<rparr>"

definition example_executor_world :: executor_world where
  "example_executor_world =
     \<lparr>telemetry_readings = [], alerts = [], temperature_actions = [], webhook_posts = [],
      x_delete_calls = [], x_db_faults = [], x_fetch_faults = [], x_sqs_faults = [],
      x_clock = ''2026-01-01T00:00:01.000Z''\<rparr>"

definition example_executor_config :: executor_config where
  "example_executor_config =
     \<lparr>webhook_enabled = True, webhook_url = Some ''http://hook.example/alerts''\<rparr>"

definition example_telemetry :: telemetry where
  "example_telemetry =
     \<lparr>ship_id = ''ship_1'', sensor_id = Some ''ship_1_default_sensor'', temp = Fin (-1),
      timestamp = ''2026-01-01T00:00:00.000Z''\<rparr>"

text \<open>The event the worker publishes for the example reading under the default thresholds.\<close>

definition example_critical_event :: event where
  "example_critical_event =
     telemetryEvent example_telemetry config_thresholds_default ''2026-01-01T00:00:00.500Z''"

text \<open>The event the worker publishes for the rising sample -3, -4, -6, -9.\<close>

definition example_trend_event :: event where
  "example_trend_event =
     trendEvent example_worker_config ''ship_1'' (Fin (-3)) (Fin 6)
       ''2026-01-01T00:00:00.500Z''"

text \<open>A world of the executor in which the next webhook request fails.\<close>

definition failing_webhook_world :: executor_world where
  "failing_webhook_world = example_executor_world\<lparr>x_fetch_faults := [True]\<rparr>"

text \<open>
  A batch of three messages of the events queue: the first and the third hold the two
  example events, the body of the second is not JSON.
\<close>

definition example_batch :: "event sqs_message list" where
  "example_batch =
     [\<lparr>MessageId = ''m1'', ReceiptHandle = ''h1'', Body = Some example_critical_event\<rparr>,
      \<lparr>MessageId = ''m2'', ReceiptHandle = ''h2'', Body = None\<rparr>,
      \<lparr>MessageId = ''m3'', ReceiptHandle = ''h3'', Body = Some example_trend_event\<rparr>]"

text \<open>
  A batch of three messages of the telemetry queue: the first and the third hold the
  example reading, the body of the second is not JSON.
\<close>

definition example_telemetry_batch :: "telemetry sqs_message list" where
  "example_telemetry_batch =
     [\<lparr>MessageId = ''t1'', ReceiptHandle = ''r1'', Body = Some example_telemetry\<rparr>,
      \<lparr>MessageId = ''t2'', ReceiptHandle = ''r2'', Body = None\<rparr>,
      \<lparr>MessageId = ''t3'', ReceiptHandle = ''r3'', Body = Some example_telemetry\<rparr>]"

section \<open>Properties\<close>

lemmas alertTypes_defs =
  alertTypes_NORMAL_def alertTypes_WARNING_def alertTypes_CRITICAL_def alertTypes_TREND_ANOMALY_def

lemmas actionTypes_defs =
  actionTypes_LOG_def actionTypes_NOTIFY_WARNING_def actionTypes_NOTIFY_CRITICAL_def
  actionTypes_ADJUST_TEMPERATURE_def actionTypes_TREND_ALERT_def

text \<open>The doubles of the literals of the examples, and the differences that are used.\<close>

lemma floor_rat_numeral_divide: "\<lfloor>numeral a / numeral b :: rat\<rfloor> = numeral a div numeral b"
  by (metis floor_divide_of_int_eq of_int_numeral)

lemmas round_double_eval =
  round_double_def scaleDown.simps scaleUp.simps roundHalfEven_def floor_rat_numeral_divide

lemmas parseFloatString_eval =
  parseFloatString_def skipWhiteSpace.simps whiteSpaceLength_def parseUnsigned_def isDigit_def
  digitsValue_def scale10_def

lemma parseFloatString_empty: "parseFloatString [] = NaN"
  by (simp add: parseFloatString_eval)

lemma parseFloatString_partial: "parseFloatString ''-4.5'' = Fin (- 9 / 2)"
  by (simp add: parseFloatString_eval round_double_eval Let_def)

lemma parseFloatString_rising:
  "parseFloatString ''-3.00'' = Fin (- 3)" "parseFloatString ''-4.00'' = Fin (- 4)"
  "parseFloatString ''-6.00'' = Fin (- 6)" "parseFloatString ''-9.00'' = Fin (- 9)"
  by (simp_all add: parseFloatString_eval round_double_eval Let_def)

lemma parseFloatString_rounding:
  "parseFloatString ''-15.60'' = Fin (- 8782019273372467 / 562949953421312)"
  "parseFloatString ''-16.60'' = Fin (- 2336242306698445 / 140737488355328)"
  "parseFloatString ''-17.60'' = Fin (- 2476979795053773 / 140737488355328)"
  by (simp_all add: parseFloatString_eval round_double_eval Let_def)

lemma js_sub_rising: "round_double 6 = Fin 6"
  by (simp add: round_double_eval Let_def)

lemma js_sub_rounding:
  "round_double (1125899906842625 / 562949953421312) = Fin (1125899906842625 / 562949953421312)"
  by (simp add: round_double_eval Let_def)

subsection \<open>Classification\<close>

text \<open>
  Claim C1, as stated, says that the alert type is NORMAL exactly when the value is at most
  the warning threshold. With a warning threshold above the critical one (the two are
  stored and defaulted independently), the value -2 under warning 0 and critical -5 is at
  most the warning threshold and is classified CRITICAL, not NORMAL.
\<close>

theorem determineAlertType_normal_counterexample:
  "(-2 :: rat) \<le> 0 \<and>
   determineAlertType (Fin (-2)) \<lparr>warning = Fin 0, critical = Fin (-5), target = Fin (-18)\<rparr>
     \<noteq> alertTypes_NORMAL \<and>
   determineAlertType (Fin (-2)) \<lparr>warning = Fin 0, critical = Fin (-5), target = Fin (-18)\<rparr>
     = alertTypes_CRITICAL"
  by (simp add: determineAlertType_def alertTypes_defs)

text \<open>
  Claim C1, amended: for every value \<open>v\<close> and all thresholds \<open>t\<close>, the alert type is
  CRITICAL if and only if \<open>v\<close> is greater than the critical threshold, WARNING if and
  only if \<open>v\<close> is greater than the warning threshold and not greater than the critical
  one, and NORMAL if and only if \<open>v\<close> is greater than neither threshold; for finite
  numbers, WARNING if and only if \<open>warning < v \<le> critical\<close> and NORMAL if and only if
  \<open>v \<le> warning\<close> and \<open>v \<le> critical\<close>. A value equal to the critical threshold is not
  CRITICAL and a value equal to the warning threshold is not WARNING.
\<close>

theorem determineAlertType_classification:
  "(determineAlertType v t = alertTypes_CRITICAL \<longleftrightarrow> js_gt v (critical t)) \<and>
   (determineAlertType v t = alertTypes_WARNING
      \<longleftrightarrow> js_gt v (warning t) \<and> \<not> js_gt v (critical t)) \<and>
   (determineAlertType v t = alertTypes_NORMAL
      \<longleftrightarrow> \<not> js_gt v (warning t) \<and> \<not> js_gt v (critical t)) \<and>
   (determineAlertType (Fin a) \<lparr>warning = Fin w, critical = Fin c, target = tg\<rparr> = alertTypes_CRITICAL
      \<longleftrightarrow> a > c) \<and>
   (determineAlertType (Fin a) \<lparr>warning = Fin w, critical = Fin c, target = tg\<rparr> = alertTypes_WARNING
      \<longleftrightarrow> w < a \<and> a \<le> c) \<and>
   (determineAlertType (Fin a) \<lparr>warning = Fin w, critical = Fin c, target = tg\<rparr> = alertTypes_NORMAL
      \<longleftrightarrow> a \<le> w \<and> a \<le> c) \<and>
   determineAlertType (critical t) t \<noteq> alertTypes_CRITICAL \<and>
   determineAlertType (warning t) t \<noteq> alertTypes_WARNING"
proof -
  have irrefl: "\<not> js_gt x x" for x by (cases x) simp_all
  show ?thesis
    by (auto simp add: determineAlertType_def alertTypes_defs irrefl)
qed

subsection \<open>Actions of an alert type\<close>

text \<open>
  Claim C4: \<open>determineActions\<close> maps CRITICAL to the list LOG, ADJUST_TEMPERATURE,
  NOTIFY_CRITICAL, WARNING to the list LOG, NOTIFY_WARNING, and NORMAL to the list LOG, in
  these orders.
\<close>

theorem determineActions_table:
  "determineActions alertTypes_CRITICAL =
     [actionTypes_LOG, actionTypes_ADJUST_TEMPERATURE, actionTypes_NOTIFY_CRITICAL] \<and>
   determineActions alertTypes_WARNING = [actionTypes_LOG, actionTypes_NOTIFY_WARNING] \<and>
   determineActions alertTypes_NORMAL = [actionTypes_LOG]"
  by (simp add: determineActions_def alertTypes_defs)

text \<open>
  Claim C8: \<open>determineActions\<close> is a function of the alert type alone (it neither reads
  nor changes a world), and for every alert type, the four of the configuration among
  them, its result is a non-empty list.
\<close>

theorem determineActions_total_nonempty:
  "determineActions a \<noteq> [] \<and>
   determineActions alertTypes_NORMAL \<noteq> [] \<and>
   determineActions alertTypes_WARNING \<noteq> [] \<and>
   determineActions alertTypes_CRITICAL \<noteq> [] \<and>
   determineActions alertTypes_TREND_ANOMALY \<noteq> [] \<and>
   length (determineActions alertTypes_NORMAL) = 1 \<and>
   length (determineActions alertTypes_WARNING) = 2 \<and>
   length (determineActions alertTypes_CRITICAL) = 3 \<and>
   length (determineActions alertTypes_TREND_ANOMALY) = 1 \<and>
   determineActions alertTypes_TREND_ANOMALY = [actionTypes_LOG]"
  by (simp add: determineActions_def alertTypes_defs)

subsection \<open>Threshold resolution\<close>

lemma redis_get_ok: "redis_faults w = [] \<Longrightarrow> redis_get k w = (Inr (redis w k), w)"
  by (simp add: redis_get_def next_fault_def)

lemma getThresholds_ok:
  "redis_faults w = [] \<Longrightarrow> getThresholds shipId w =
     (Inr \<lparr>warning = parseFloat (orDefault (redis w (''threshold:'' @ shipId @ '':warning''))
                         (warning config_thresholds_default)),
           critical = parseFloat (orDefault (redis w (''threshold:'' @ shipId @ '':critical''))
                         (critical config_thresholds_default)),
           target = parseFloat (orDefault (redis w (''threshold:'' @ shipId @ '':target''))
                         (target config_thresholds_default))\<rparr>, w)"
  by (simp add: getThresholds_def bind_def ret_def redis_get_ok)

text \<open>
  Claim C5, as stated, says that a stored component is returned whenever it is present.
  A component stored as the empty string is present, and the default is returned for it:
  the warning threshold stored as the empty string resolves to the default -10, while the
  stored string itself reads as NaN.
\<close>

theorem getThresholds_empty_string_counterexample:
  "redis empty_string_cache_world ''threshold:ship_1:warning'' = Some [] \<and>
   parseFloat (JStr []) = NaN \<and>
   fst (getThresholds ''ship_1'' empty_string_cache_world) =
     Inr \<lparr>warning = Fin (-10), critical = Fin (-5), target = Fin (-18)\<rparr>"
  by (simp add: empty_string_cache_world_def example_worker_world_def getThresholds_ok
        orDefault_def config_thresholds_default_def parseFloatString_empty)

text \<open>
  Claim C5, amended: when the cache answers, \<open>getThresholds\<close> returns thresholds in which,
  independently for each of warning, critical and target, the component is the number read
  from the stored string when a non-empty string is stored, and the default of that
  component when nothing is stored.
\<close>

theorem getThresholds_componentwise:
  assumes "redis_faults w = []"
  shows "\<exists>t. getThresholds shipId w = (Inr t, w) \<and>
     (redis w (''threshold:'' @ shipId @ '':warning'') = None
        \<longrightarrow> warning t = warning config_thresholds_default) \<and>
     (\<forall>s. redis w (''threshold:'' @ shipId @ '':warning'') = Some s \<and> s \<noteq> []
        \<longrightarrow> warning t = parseFloat (JStr s)) \<and>
     (redis w (''threshold:'' @ shipId @ '':critical'') = None
        \<longrightarrow> critical t = critical config_thresholds_default) \<and>
     (\<forall>s. redis w (''threshold:'' @ shipId @ '':critical'') = Some s \<and> s \<noteq> []
        \<longrightarrow> critical t = parseFloat (JStr s)) \<and>
     (redis w (''threshold:'' @ shipId @ '':target'') = None
        \<longrightarrow> target t = target config_thresholds_default) \<and>
     (\<forall>s. redis w (''threshold:'' @ shipId @ '':target'') = Some s \<and> s \<noteq> []
        \<longrightarrow> target t = parseFloat (JStr s))"
  using assms by (simp add: getThresholds_ok orDefault_def)

text \<open>
  With the critical threshold stored as -4.5 and no warning threshold stored, the result
  has the stored critical threshold and the default warning threshold.
\<close>

theorem getThresholds_componentwise_witness:
  "redis_faults partial_cache_world = [] \<and>
   redis partial_cache_world ''threshold:ship_1:warning'' = None \<and>
   redis partial_cache_world ''threshold:ship_1:critical'' = Some ''-4.5'' \<and>
   (\<exists>t. getThresholds ''ship_1'' partial_cache_world = (Inr t, partial_cache_world) \<and>
        warning t = Fin (-10) \<and> critical t = Fin (-9 / 2) \<and> target t = Fin (-18))"
proof -
  have f: "redis_faults partial_cache_world = []"
    by (simp add: partial_cache_world_def example_worker_world_def)
  have w: "redis partial_cache_world ''threshold:ship_1:warning'' = None"
    by (simp add: partial_cache_world_def example_worker_world_def)
  have c: "redis partial_cache_world ''threshold:ship_1:critical'' = Some ''-4.5''"
    by (simp add: partial_cache_world_def example_worker_world_def)
  have g: "redis partial_cache_world ''threshold:ship_1:target'' = None"
    by (simp add: partial_cache_world_def example_worker_world_def)
  have p: "parseFloat (JStr ''-4.5'') = Fin (-9 / 2)"
    by (simp add: parseFloatString_partial)
  from getThresholds_componentwise [OF f, of "''ship_1''"] w c g p
  show ?thesis using f by (auto simp: config_thresholds_default_def)
qed

subsection \<open>Rounding\<close>

text \<open>
  The normalisation loops keep the value and end with a significand below \<open>2 ^ 53\<close> that is
  at least \<open>2 ^ 52\<close> unless the exponent is the least one. It follows that the double of
  a rational is greater than 2 exactly when the rational is greater than \<open>2 + 1 / 2 ^ 52\<close>,
  the midpoint of 2 and the next double.
\<close>

lemma scaleDown_inv:
  "0 < a \<Longrightarrow> scaleDown a e = (a', e') \<Longrightarrow>
     a' * 2 powi e' = a * 2 powi e \<and> 0 < a' \<and> a' < 2 ^ 53"
proof (induction a e rule: scaleDown.induct)
  case (1 a e)
  show ?case
  proof (cases "2 ^ 53 \<le> a")
    case True
    have r: "scaleDown (a / 2) (e + 1) = (a', e')"
      using "1.prems"(2) True by (subst (asm) scaleDown.simps) simp
    have p: "0 < a / 2" using "1.prems"(1) by simp
    have ih: "a' * 2 powi e' = a / 2 * 2 powi (e + 1) \<and> 0 < a' \<and> a' < 2 ^ 53"
      by (rule "1.IH" [OF True p r])
    have pw: "2 powi (e + 1) = 2 powi e * (2 :: rat)" by (simp add: power_int_add)
    have "a' * 2 powi e' = a / 2 * 2 powi (e + 1)" using ih by blast
    also have "\<dots> = a * 2 powi e" unfolding pw by simp
    finally show ?thesis using ih by blast
  next
    case False
    have "scaleDown a e = (a, e)"
      using False by (subst scaleDown.simps) simp
    with False "1.prems" show ?thesis by auto
  qed
qed

lemma scaleUp_inv:
  "0 < a \<Longrightarrow> a < 2 ^ 53 \<Longrightarrow> scaleUp a e = (a', e') \<Longrightarrow>
     a' * 2 powi e' = a * 2 powi e \<and> 0 < a' \<and> a' < 2 ^ 53 \<and> (2 ^ 52 \<le> a' \<or> e' \<le> - 1074)"
proof (induction a e rule: scaleUp.induct)
  case (1 a e)
  show ?case
  proof (cases "a < 2 ^ 52 \<and> - 1074 < e")
    case True
    have r: "scaleUp (a * 2) (e - 1) = (a', e')"
      using "1.prems"(3) True by (subst (asm) scaleUp.simps) simp
    have p: "0 < a * 2" "a * 2 < 2 ^ 53" using "1.prems"(1) True by simp_all
    have ih: "a' * 2 powi e' = a * 2 * 2 powi (e - 1) \<and> 0 < a' \<and> a' < 2 ^ 53 \<and>
              (2 ^ 52 \<le> a' \<or> e' \<le> - 1074)"
      by (rule "1.IH" [OF True p r])
    have pw: "2 powi e = 2 powi (e - 1) * (2 :: rat)"
      using power_int_add [of "2 :: rat" "e - 1" 1] by simp
    have "a' * 2 powi e' = a * 2 * 2 powi (e - 1)" using ih by blast
    also have "\<dots> = a * 2 powi e" unfolding pw by simp
    finally show ?thesis using ih by blast
  next
    case False
    have "scaleUp a e = (a, e)"
      using False by (subst scaleUp.simps) auto
    with False "1.prems" show ?thesis by auto
  qed
qed

lemma roundHalfEven_bounds:
  "of_int (roundHalfEven a) \<le> a + 1 / 2 \<and> a - 1 / 2 \<le> of_int (roundHalfEven a)"
  unfolding roundHalfEven_def Let_def
  by (auto; linarith)

lemma roundHalfEven_tie:
  "a = of_int k + 1 / 2 \<Longrightarrow> even k \<Longrightarrow> roundHalfEven a = k"
proof -
  assume a: "a = of_int k + 1 / 2" and k: "even k"
  have "\<lfloor>a\<rfloor> = k" unfolding a by linarith
  then show ?thesis using a k by (simp add: roundHalfEven_def Let_def)
qed

lemma round_double_normal_form:
  assumes "x \<noteq> 0"
  obtains a e where "0 < a" "a < 2 ^ 53" "2 ^ 52 \<le> a \<or> e \<le> - 1074" "a * 2 powi e = \<bar>x\<bar>"
    "round_double x =
       (if 971 < e \<or> (e = 971 \<and> 2 ^ 53 \<le> roundHalfEven a) then (if x < 0 then NegInf else PosInf)
        else Fin (sgn x * of_int (roundHalfEven a) * 2 powi e))"
proof -
  obtain a0 e0 where sd: "scaleDown \<bar>x\<bar> 0 = (a0, e0)" by (cases "scaleDown \<bar>x\<bar> 0")
  obtain a e where su: "scaleUp a0 e0 = (a, e)" by (cases "scaleUp a0 e0")
  have px: "0 < \<bar>x\<bar>" using assms by simp
  from scaleDown_inv [OF px sd]
  have a0: "a0 * 2 powi e0 = \<bar>x\<bar>" "0 < a0" "a0 < 2 ^ 53" by simp_all
  from scaleUp_inv [OF a0(2,3) su] a0(1)
  have inv: "a * 2 powi e = \<bar>x\<bar>" "0 < a" "a < 2 ^ 53" "2 ^ 52 \<le> a \<or> e \<le> - 1074" by simp_all
  have rd: "round_double x =
       (if 971 < e \<or> (e = 971 \<and> 2 ^ 53 \<le> roundHalfEven a) then (if x < 0 then NegInf else PosInf)
        else Fin (sgn x * of_int (roundHalfEven a) * 2 powi e))"
    using assms sd su by (simp add: round_double_def Let_def)
  from inv rd show ?thesis by (rule_tac that) auto
qed

lemma round_double_gt_two: "js_gt (round_double x) (Fin 2) \<longleftrightarrow> 2 + 1 / 2 ^ 52 < x"
proof (cases "x = 0")
  case True
  then show ?thesis by (simp add: round_double_def)
next
  case nz: False
  from round_double_normal_form [OF nz] obtain a e where
    a: "0 < a" "a < 2 ^ 53" and n: "2 ^ 52 \<le> a \<or> e \<le> - 1074" and ax: "a * 2 powi e = \<bar>x\<bar>"
    and rd: "round_double x =
       (if 971 < e \<or> (e = 971 \<and> 2 ^ 53 \<le> roundHalfEven a) then (if x < 0 then NegInf else PosInf)
        else Fin (sgn x * of_int (roundHalfEven a) * 2 powi e))"
    by blast
  define m where "m = roundHalfEven a"
  have mb: "of_int m \<le> a + 1 / 2" "a - 1 / 2 \<le> of_int m"
    using roundHalfEven_bounds [of a] by (simp_all add: m_def)
  have m0: "0 \<le> m"
  proof -
    have "(of_int (- 1) :: rat) < of_int m" using mb(2) a(1) by simp
    then have "- 1 < m" by (simp only: of_int_less_iff)
    then show ?thesis by simp
  qed
  have pe: "0 < (2 :: rat) powi e" by simp
  show ?thesis
  proof (cases "x < 0")
    case True
    have "0 \<le> of_int m * (2 :: rat) powi e" using m0 pe by simp
    then have "sgn x * of_int m * 2 powi e \<le> 0" using True by (simp add: mult_nonneg_nonneg)
    then show ?thesis using True unfolding rd m_def [symmetric] by auto
  next
    case False
    then have pos: "0 < x" and sx: "sgn x = 1" and ab: "\<bar>x\<bar> = x" using nz by simp_all
    have xa: "x = a * 2 powi e" using ax ab by simp
    consider (big) "- 50 \<le> e" | (mid) "e = - 51" | (small) "e \<le> - 52" by linarith
    then show ?thesis
    proof cases
      case big
      then have a52: "2 ^ 52 \<le> a" using n by auto
      have p: "(2 :: rat) powi (- 50) \<le> 2 powi e"
        using big by (intro power_int_increasing) auto
      have p50: "(2 :: rat) powi (- 50) = 1 / 2 ^ 50" by (simp add: inverse_eq_divide)
      have "2 ^ 52 * (1 / 2 ^ 50) \<le> a * 2 powi e"
        using a52 p unfolding p50 by (intro mult_mono) auto
      then have x4: "4 \<le> x" unfolding xa by simp
      have "(of_int (2 ^ 52 - 1) :: rat) < of_int m" using mb(2) a52 by simp
      then have "2 ^ 52 - 1 < m" by (simp only: of_int_less_iff)
      then have "2 ^ 52 \<le> m" by simp
      then have "(of_int (2 ^ 52) :: rat) \<le> of_int m" by (simp only: of_int_le_iff)
      then have "(2 ^ 52 :: rat) \<le> of_int m" by simp
      then have "2 ^ 52 * (1 / 2 ^ 50) \<le> of_int m * (2 :: rat) powi e"
        using p unfolding p50 by (intro mult_mono) auto
      then have "4 \<le> of_int m * (2 :: rat) powi e" by simp
      then show ?thesis using x4 unfolding rd m_def [symmetric] sx by auto
    next
      case mid
      then have a52: "2 ^ 52 \<le> a" using n by auto
      have p51: "(2 :: rat) powi e = 1 / 2 ^ 51"
        unfolding mid by (simp add: inverse_eq_divide)
      have l: "js_gt (round_double x) (Fin 2) \<longleftrightarrow> 2 ^ 52 < m"
      proof -
        have "js_gt (round_double x) (Fin 2) \<longleftrightarrow> 2 < of_int m * (1 / 2 ^ 51 :: rat)"
          unfolding rd m_def [symmetric] sx p51 [symmetric] using mid by simp
        also have "\<dots> \<longleftrightarrow> (2 ^ 52 :: rat) < of_int m" by (simp add: field_simps)
        also have "\<dots> \<longleftrightarrow> (of_int (2 ^ 52) :: rat) < of_int m" by simp
        also have "\<dots> \<longleftrightarrow> 2 ^ 52 < m" by (simp only: of_int_less_iff)
        finally show ?thesis .
      qed
      have r: "2 + 1 / 2 ^ 52 < x \<longleftrightarrow> 2 ^ 52 + 1 / 2 < a"
        unfolding xa p51 by (simp add: field_simps)
      have "2 ^ 52 < m \<longleftrightarrow> 2 ^ 52 + 1 / 2 < a"
      proof
        assume "2 ^ 52 < m"
        then have "2 ^ 52 + 1 \<le> m" by simp
        then have "(of_int (2 ^ 52 + 1) :: rat) \<le> of_int m" by (simp only: of_int_le_iff)
        then have g: "(2 ^ 52 + 1 :: rat) \<le> of_int m" by simp
        show "2 ^ 52 + 1 / 2 < a"
        proof (rule ccontr)
          assume "\<not> 2 ^ 52 + 1 / 2 < a"
          then have le: "a \<le> 2 ^ 52 + 1 / 2" by simp
          show False
          proof (cases "a = 2 ^ 52 + 1 / 2")
            case True
            have "roundHalfEven a = 2 ^ 52"
              by (rule roundHalfEven_tie) (simp_all add: True)
            then show False using \<open>2 ^ 52 < m\<close> by (simp add: m_def)
          next
            case False
            then have "a < 2 ^ 52 + 1 / 2" using le by simp
            then show False using mb(1) g by simp
          qed
        qed
      next
        assume "2 ^ 52 + 1 / 2 < a"
        then have "(of_int (2 ^ 52) :: rat) < of_int m" using mb(2) by simp
        then show "2 ^ 52 < m" by (simp only: of_int_less_iff)
      qed
      with l r show ?thesis by simp
    next
      case small
      have p: "(2 :: rat) powi e \<le> 2 powi (- 52)"
        using small by (intro power_int_increasing) auto
      have p52: "(2 :: rat) powi (- 52) = 1 / 2 ^ 52" by (simp add: inverse_eq_divide)
      have "a * 2 powi e \<le> a * (1 / 2 ^ 52)"
        using a(1) p unfolding p52 by (intro mult_left_mono) auto
      also have "\<dots> < 2 ^ 53 * (1 / 2 ^ 52)" using a(2) by simp
      finally have x2: "x < 2" unfolding xa by simp
      have "of_int m < (of_int (2 ^ 53 + 1) :: rat)" using mb(1) a(2) by simp
      then have "m < 2 ^ 53 + 1" by (simp only: of_int_less_iff)
      then have "m \<le> 2 ^ 53" by simp
      then have "(of_int m :: rat) \<le> of_int (2 ^ 53)" by (simp only: of_int_le_iff)
      then have "of_int m \<le> (2 ^ 53 :: rat)" by simp
      then have "of_int m * (2 :: rat) powi e \<le> 2 ^ 53 * (1 / 2 ^ 52)"
        using p m0 unfolding p52 by (intro mult_mono) auto
      then have "of_int m * (2 :: rat) powi e \<le> 2" by simp
      then show ?thesis using x2 small unfolding rd m_def [symmetric] sx by auto
    qed
  qed
qed

subsection \<open>Trend detection\<close>

lemma risingLoop_count:
  "risingLoop temps i rising =
     rising + length (filter (\<lambda>(newer, older). js_gt newer older)
                        (zip (drop i temps) (drop (i + 1) temps)))"
proof (induction temps i rising rule: risingLoop.induct)
  case (1 temps i rising)
  show ?case
  proof (cases "i < length temps - 1")
    case True
    then have i: "i < length temps" and si: "Suc i < length temps" by auto
    have d1: "drop i temps = temps ! i # drop (Suc i) temps"
      using i by (simp add: Cons_nth_drop_Suc)
    have d2: "drop (Suc i) temps = temps ! Suc i # drop (Suc (Suc i)) temps"
      using si by (simp add: Cons_nth_drop_Suc)
    have "zip (drop i temps) (drop (i + 1) temps) =
            (temps ! i, temps ! Suc i) # zip (drop (Suc i) temps) (drop (Suc (Suc i)) temps)"
      by (subst d1, simp, subst d2, simp)
    with True "1.IH" show ?thesis
      by (subst risingLoop.simps) simp
  next
    case False
    then have "drop (i + 1) temps = []" by simp
    with False show ?thesis
      by (subst risingLoop.simps) simp
  qed
qed

lemma risingLoop_spec: "risingLoop temps 0 0 = spec_rising_steps temps"
  by (simp add: risingLoop_count spec_rising_steps_def drop_Suc)

lemma db_query_recent_ok:
  "pg_faults w = [] \<Longrightarrow> db_query_recent s w = (Inr (recent_readings w s), w)"
  by (simp add: db_query_recent_def next_fault_def)

lemma publishEvent_ok:
  "sqs_faults w = [] \<Longrightarrow>
   publishEvent e w =
     (Inr (), w\<lparr>send_calls := send_calls w @ [e], events_queue := events_queue w @ [e]\<rparr>)"
  by (simp add: publishEvent_def sqs_send_event_def next_fault_def)

lemma checkTemperatureTrend_ok:
  assumes "pg_faults w = []" and "sqs_faults w = []"
  shows "checkTemperatureTrend cfg shipId w =
    (let temps = map (\<lambda>r. parseFloat (JStr r)) (recent_readings w shipId);
         increase = js_sub (temps ! 0) (temps ! (length temps - 1))
     in if length temps \<ge> trendMinReadings \<and> spec_rising_steps temps \<ge> trendMinRising
            \<and> js_gt increase trendMinIncrease
        then (Inr (), w\<lparr>send_calls := send_calls w @
                [trendEvent cfg shipId (temps ! 0) increase (clock w)],
              events_queue := events_queue w @
                [trendEvent cfg shipId (temps ! 0) increase (clock w)]\<rparr>)
        else (Inr (), w))"
  using assms unfolding checkTemperatureTrend_def bind_def
  by (simp add: db_query_recent_ok Let_def risingLoop_spec ret_def now_def publishEvent_ok not_less
           del: parseFloat.simps)

lemma sqs_send_event_fields:
  "send_calls (snd (sqs_send_event e w)) = send_calls w @ [e]"
  "events_queue (snd (sqs_send_event e w)) =
     events_queue w @ (if fst (next_fault (sqs_faults w)) then [] else [e])"
  by (simp_all add: sqs_send_event_def case_prod_beta Let_def)

text \<open>The trend check, whatever the outcome of the query and of the send call.\<close>

lemma checkTemperatureTrend_run:
  "checkTemperatureTrend cfg shipId w =
    (let temps = map (\<lambda>r. parseFloat (JStr r)) (recent_readings w shipId);
         increase = js_sub (temps ! 0) (temps ! (length temps - 1));
         w1 = w\<lparr>pg_faults := snd (next_fault (pg_faults w))\<rparr>
     in if fst (next_fault (pg_faults w)) then (Inl DbError, w1)
        else if trendMinReadings \<le> length temps \<and> trendMinRising \<le> spec_rising_steps temps
                \<and> js_gt increase trendMinIncrease
        then sqs_send_event (trendEvent cfg shipId (temps ! 0) increase (clock w)) w1
        else (Inr (), w1))"
  unfolding checkTemperatureTrend_def bind_def
  by (simp add: db_query_recent_def Let_def case_prod_beta risingLoop_spec ret_def now_def
        publishEvent_def not_less del: parseFloat.simps)

lemma spec_rising_steps_finite:
  "spec_rising_steps (map Fin qs) =
     length (filter (\<lambda>(newer, older). older < newer) (zip qs (tl qs)))"
proof -
  have z: "zip (map Fin qs) (tl (map Fin qs)) = map (\<lambda>(x, y). (Fin x, Fin y)) (zip qs (tl qs))"
    by (simp add: map_tl [symmetric] zip_map_map)
  show ?thesis
    unfolding spec_rising_steps_def z
    by (simp add: filter_map comp_def case_prod_unfold)
qed

text \<open>
  Claim C3, as stated, says that an event is emitted only if the newest sample minus the
  oldest one exceeds 2. The samples are decimals of the database and the program computes
  with their doubles: for the samples -15.60, -16.60, -17.60 the newest exceeds the oldest
  by exactly 2, the difference of the two doubles is rounded to \<open>2 + 1 / 2 ^ 49\<close>, and an
  event is sent and published.
\<close>

theorem checkTemperatureTrend_rounding_counterexample:
  "recent_readings rounding_world ''ship_1'' = [''-15.60'', ''-16.60'', ''-17.60''] \<and>
   \<not> (2 :: rat) < - 1560 / 100 - (- 1760 / 100) \<and>
   js_sub (parseFloat (JStr ''-15.60'')) (parseFloat (JStr ''-17.60'')) = Fin (2 + 1 / 2 ^ 49) \<and>
   fst (checkTemperatureTrend example_worker_config ''ship_1'' rounding_world) = Inr () \<and>
   map event_type
     (send_calls (snd (checkTemperatureTrend example_worker_config ''ship_1'' rounding_world))) =
     [''TREND_ANOMALY''] \<and>
   map event_type
     (events_queue (snd (checkTemperatureTrend example_worker_config ''ship_1'' rounding_world))) =
     [''TREND_ANOMALY'']"
proof -
  have a: "pg_faults rounding_world = []" and b: "sqs_faults rounding_world = []"
    by (simp_all add: rounding_world_def example_worker_world_def)
  have r: "recent_readings rounding_world ''ship_1'' = [''-15.60'', ''-16.60'', ''-17.60'']"
    by (simp add: rounding_world_def example_worker_world_def)
  have d: "js_sub (parseFloat (JStr ''-15.60'')) (parseFloat (JStr ''-17.60'')) = Fin (2 + 1 / 2 ^ 49)"
    by (simp add: parseFloatString_rounding js_sub_rounding)
  show ?thesis
    unfolding checkTemperatureTrend_ok [OF a b]
    by (simp add: Let_def r parseFloatString_rounding js_sub_rounding spec_rising_steps_def
          trendMinReadings_def trendMinRising_def trendMinIncrease_def trendEvent_def
          rounding_world_def example_worker_world_def)
qed

text \<open>
  Claim C3, amended: the trend check sends an event if and only if the database answers
  the query, the sample has at least \<open>trendMinReadings\<close> (3) rows, at least
  \<open>trendMinRising\<close> (2) adjacent pairs whose newer double is greater than the older one,
  and the difference of the doubles of its newest and its oldest row, rounded to a double,
  is greater than \<open>trendMinIncrease\<close> (2). The event is of type TREND_ANOMALY, with the
  newest value as its temperature and the single action TREND_ALERT, and it is on the queue
  exactly when the queue accepts the send call. A sample of fewer than
  \<open>trendMinReadings\<close> rows sends nothing. On finite values the comparison is the order of
  the numbers and the subtraction is the exact difference rounded to a double, so that the
  difference of two doubles is found greater than 2 exactly when their exact difference is
  greater than \<open>2 + 1 / 2 ^ 52\<close>.
\<close>

theorem checkTemperatureTrend_emits_iff:
  assumes "temps = map (\<lambda>r. parseFloat (JStr r)) (recent_readings w shipId)"
  shows "send_calls (snd (checkTemperatureTrend cfg shipId w)) =
      send_calls w @
        (if \<not> fst (next_fault (pg_faults w)) \<and> trendMinReadings \<le> length temps
            \<and> trendMinRising \<le> spec_rising_steps temps
            \<and> js_gt (js_sub (hd temps) (last temps)) trendMinIncrease
         then [\<lparr>event_type = ''TREND_ANOMALY'',
                telemetry = \<lparr>ship_id = shipId, sensor_id = None, temp = hd temps,
                              timestamp = clock w\<rparr>,
                evaluation = \<lparr>alert_type = alertTypes_TREND_ANOMALY, thresholds = None,
                               actions = [actionTypes_TREND_ALERT],
                               message = Some (TrendText (js_sub (hd temps) (last temps))
                                                 (trendWindowMinutes cfg))\<rparr>,
                processed_at = clock w\<rparr>]
         else []) \<and>
    events_queue (snd (checkTemperatureTrend cfg shipId w)) =
      events_queue w @
        (if \<not> fst (next_fault (pg_faults w)) \<and> trendMinReadings \<le> length temps
            \<and> trendMinRising \<le> spec_rising_steps temps
            \<and> js_gt (js_sub (hd temps) (last temps)) trendMinIncrease
            \<and> \<not> fst (next_fault (sqs_faults w))
         then [\<lparr>event_type = ''TREND_ANOMALY'',
                telemetry = \<lparr>ship_id = shipId, sensor_id = None, temp = hd temps,
                              timestamp = clock w\<rparr>,
                evaluation = \<lparr>alert_type = alertTypes_TREND_ANOMALY, thresholds = None,
                               actions = [actionTypes_TREND_ALERT],
                               message = Some (TrendText (js_sub (hd temps) (last temps))
                                                 (trendWindowMinutes cfg))\<rparr>,
                processed_at = clock w\<rparr>]
         else []) \<and>
    (length temps < trendMinReadings \<longrightarrow>
       send_calls (snd (checkTemperatureTrend cfg shipId w)) = send_calls w \<and>
       events_queue (snd (checkTemperatureTrend cfg shipId w)) = events_queue w) \<and>
    trendMinReadings = 3 \<and> trendMinRising = 2 \<and> trendMinIncrease = Fin 2 \<and>
    (js_gt (Fin a) (Fin b) \<longleftrightarrow> b < a) \<and>
    spec_rising_steps (map Fin qs) =
      length (filter (\<lambda>(newer, older). older < newer) (zip qs (tl qs))) \<and>
    js_sub (Fin a) (Fin b) = round_double (a - b) \<and>
    (js_gt (js_sub (Fin a) (Fin b)) trendMinIncrease \<longleftrightarrow> 2 + 1 / 2 ^ 52 < a - b)"
proof -
  have pins: "trendMinReadings = 3 \<and> trendMinRising = 2 \<and> trendMinIncrease = Fin 2 \<and>
    (js_gt (Fin a) (Fin b) \<longleftrightarrow> b < a) \<and>
    spec_rising_steps (map Fin qs) =
      length (filter (\<lambda>(newer, older). older < newer) (zip qs (tl qs))) \<and>
    js_sub (Fin a) (Fin b) = round_double (a - b) \<and>
    (js_gt (js_sub (Fin a) (Fin b)) trendMinIncrease \<longleftrightarrow> 2 + 1 / 2 ^ 52 < a - b)"
    using round_double_gt_two [of "a - b"]
    by (simp add: trendMinReadings_def trendMinRising_def trendMinIncrease_def
          spec_rising_steps_finite)
  show ?thesis
  proof (cases "trendMinReadings \<le> length temps")
    case False
    then show ?thesis using pins
      unfolding checkTemperatureTrend_run assms Let_def by simp
  next
    case True
    then have ne: "temps \<noteq> []" by (auto simp: trendMinReadings_def)
    have h: "temps ! 0 = hd temps" using ne by (simp add: hd_conv_nth)
    have l: "temps ! (length temps - 1) = last temps" using ne by (simp add: last_conv_nth)
    show ?thesis using True pins
      unfolding checkTemperatureTrend_run Let_def assms [symmetric] h l
      by (simp add: sqs_send_event_fields trendEvent_def)
  qed
qed

text \<open>
  The sample -3, -4, -6, -9 has three rising steps and an increase of 6: an event is sent
  and published.
\<close>

theorem checkTemperatureTrend_emits_iff_witness:
  "map (\<lambda>r. parseFloat (JStr r)) (recent_readings rising_world ''ship_1'') =
     [Fin (-3), Fin (-4), Fin (-6), Fin (-9)] \<and>
   spec_rising_steps [Fin (-3), Fin (-4), Fin (-6), Fin (-9)] = 3 \<and>
   js_sub (Fin (-3)) (Fin (-9)) = Fin 6 \<and>
   send_calls (snd (checkTemperatureTrend example_worker_config ''ship_1'' rising_world)) =
     [\<lparr>event_type = ''TREND_ANOMALY'',
       telemetry = \<lparr>ship_id = ''ship_1'', sensor_id = None, temp = Fin (-3),
                     timestamp = ''2026-01-01T00:00:00.000Z''\<rparr>,
       evaluation = \<lparr>alert_type = ''TREND_ANOMALY'', thresholds = None,
                      actions = [''TREND_ALERT''], message = Some (TrendText (Fin 6) 5)\<rparr>,
       processed_at = ''2026-01-01T00:00:00.000Z''\<rparr>] \<and>
   events_queue (snd (checkTemperatureTrend example_worker_config ''ship_1'' rising_world)) =
     [\<lparr>event_type = ''TREND_ANOMALY'',
       telemetry = \<lparr>ship_id = ''ship_1'', sensor_id = None, temp = Fin (-3),
                     timestamp = ''2026-01-01T00:00:00.000Z''\<rparr>,
       evaluation = \<lparr>alert_type = ''TREND_ANOMALY'', thresholds = None,
                      actions = [''TREND_ALERT''], message = Some (TrendText (Fin 6) 5)\<rparr>,
       processed_at = ''2026-01-01T00:00:00.000Z''\<rparr>]"
proof -
  have a: "pg_faults rising_world = []" and b: "sqs_faults rising_world = []"
    by (simp_all add: rising_world_def example_worker_world_def)
  have c: "[Fin (-3), Fin (-4), Fin (-6), Fin (-9)] =
           map (\<lambda>r. parseFloat (JStr r)) (recent_readings rising_world ''ship_1'')"
    by (simp add: rising_world_def example_worker_world_def parseFloatString_rising)
  have d: "spec_rising_steps [Fin (-3), Fin (-4), Fin (-6), Fin (-9)] = 3"
    by (simp add: spec_rising_steps_def)
  have e: "events_queue rising_world = []" "send_calls rising_world = []"
    and f: "clock rising_world = ''2026-01-01T00:00:00.000Z''"
    by (simp_all add: rising_world_def example_worker_world_def)
  have g: "js_sub (Fin (-3)) (Fin (-9)) = Fin 6"
    by (simp add: js_sub_rising)
  from checkTemperatureTrend_emits_iff
         [OF c, where cfg = example_worker_config and qs = "[]" and a = 0 and b = 0]
  show ?thesis using a b c [symmetric] d e f g
    by (simp add: next_fault_def example_worker_config_def alertTypes_defs actionTypes_defs
          trendMinReadings_def trendMinRising_def trendMinIncrease_def)
qed

text \<open>
  Whatever the services do, the events that the trend check adds to the queue are of type
  TREND_ANOMALY with the single action TREND_ALERT.
\<close>

lemma checkTemperatureTrend_events:
  "take (length (events_queue w)) (events_queue (snd (checkTemperatureTrend cfg s w))) =
     events_queue w \<and>
   (\<forall>e \<in> set (drop (length (events_queue w)) (events_queue (snd (checkTemperatureTrend cfg s w)))).
      actions (evaluation e) = [actionTypes_TREND_ALERT] \<and>
      alert_type (evaluation e) = alertTypes_TREND_ANOMALY)"
  by (auto simp: checkTemperatureTrend_def bind_def ret_def db_query_recent_def next_fault_def
        Let_def now_def publishEvent_def sqs_send_event_def trendEvent_def
      split: list.splits sum.splits prod.splits if_splits)

text \<open>
  Claim C10: for every input other than CRITICAL and WARNING, TREND_ANOMALY and any
  unrecognised string among them, \<open>determineActions\<close> returns the list LOG alone; no result
  of \<open>determineActions\<close> contains TREND_ALERT, and every event that the trend check
  publishes carries the list TREND_ALERT alone, built in \<open>checkTemperatureTrend\<close> itself.
\<close>

theorem determineActions_default_LOG:
  "(a \<noteq> alertTypes_CRITICAL \<and> a \<noteq> alertTypes_WARNING \<longrightarrow> determineActions a = [actionTypes_LOG]) \<and>
   determineActions alertTypes_TREND_ANOMALY = [actionTypes_LOG] \<and>
   actionTypes_TREND_ALERT \<notin> set (determineActions a) \<and>
   (\<forall>e \<in> set (drop (length (events_queue w)) (events_queue (snd (checkTemperatureTrend cfg s w)))).
      actions (evaluation e) = [actionTypes_TREND_ALERT])"
  using checkTemperatureTrend_events [of w cfg s]
  by (simp add: determineActions_def alertTypes_defs actionTypes_defs)

theorem determineActions_default_LOG_witness:
  "''UNKNOWN'' \<noteq> alertTypes_CRITICAL \<and> ''UNKNOWN'' \<noteq> alertTypes_WARNING \<and>
   determineActions ''UNKNOWN'' = [''LOG''] \<and>
   determineActions ''TREND_ANOMALY'' = [''LOG''] \<and>
   drop (length (events_queue rising_world))
     (events_queue (snd (checkTemperatureTrend example_worker_config ''ship_1'' rising_world))) \<noteq> [] \<and>
   map (\<lambda>e. actions (evaluation e))
     (drop (length (events_queue rising_world))
        (events_queue (snd (checkTemperatureTrend example_worker_config ''ship_1'' rising_world)))) =
     [ [''TREND_ALERT''] ]"
proof -
  have a: "pg_faults rising_world = []" and b: "sqs_faults rising_world = []"
    by (simp_all add: rising_world_def example_worker_world_def)
  have q: "events_queue (snd (checkTemperatureTrend example_worker_config ''ship_1'' rising_world)) =
     [trendEvent example_worker_config ''ship_1'' (Fin (-3)) (Fin 6)
        ''2026-01-01T00:00:00.000Z'']"
    unfolding checkTemperatureTrend_ok [OF a b]
    by (simp add: Let_def rising_world_def example_worker_world_def parseFloatString_rising
          js_sub_rising spec_rising_steps_def trendMinReadings_def trendMinRising_def
          trendMinIncrease_def)
  have e: "events_queue rising_world = []"
    by (simp add: rising_world_def example_worker_world_def)
  from determineActions_default_LOG [of "''UNKNOWN''" rising_world example_worker_config "''ship_1''"]
  show ?thesis unfolding q e
    by (simp add: alertTypes_defs actionTypes_defs trendEvent_def)
qed

subsection \<open>Notification is best effort\<close>

lemma sendNotification_returns: "fst (sendNotification cfg tel ev w) = Inr ()"
  by (simp add: sendNotification_def split: option.splits prod.splits)

lemma sendNotification_dbView: "dbView (snd (sendNotification cfg tel ev w)) = dbView w"
  by (simp add: sendNotification_def dbView_def split: option.splits prod.splits)

lemma agree_ret: "agree (ret x) (ret x)"
  by (simp add: agree_def ret_def)

lemma agree_raise: "agree (raise e) (raise e)"
  by (simp add: agree_def raise_def)

lemma agree_bind:
  assumes "agree m m'" and "\<And>x. agree (f x) (f' x)"
  shows "agree (bind m f) (bind m' f')"
  unfolding agree_def
proof (intro allI impI)
  fix w w' assume v: "dbView w = dbView w'"
  obtain r u where mw: "m w = (r, u)" by (cases "m w")
  obtain r' u' where mw': "m' w' = (r', u')" by (cases "m' w'")
  from assms(1) [unfolded agree_def, rule_format, OF v] mw mw'
  have rr: "r = r'" and uu: "dbView u = dbView u'" by simp_all
  show "fst (bind m f w) = fst (bind m' f' w') \<and>
        dbView (snd (bind m f w)) = dbView (snd (bind m' f' w'))"
  proof (cases r)
    case (Inl e)
    with rr mw mw' uu show ?thesis by (auto simp: bind_def)
  next
    case (Inr x)
    with rr mw mw' assms(2) [of x, unfolded agree_def, rule_format, OF uu] show ?thesis
      by (auto simp: bind_def)
  qed
qed

lemma agree_whenever: "agree m m' \<Longrightarrow> agree (whenever b m) (whenever b m')"
  by (simp add: whenever_def agree_ret)

lemma agree_x_now: "agree x_now x_now"
  by (simp add: agree_def x_now_def dbView_def)

lemma agree_thresholdOf: "agree (thresholdOf ev c) (thresholdOf ev c)"
  by (simp add: thresholdOf_def agree_ret agree_raise split: option.splits)

lemma agree_sendNotification: "agree (sendNotification cfg tel ev) (sendNotification cfg' tel ev)"
  by (simp add: agree_def sendNotification_returns sendNotification_dbView)

lemma agree_storeTelemetry: "agree (storeTelemetry tel) (storeTelemetry tel)"
  unfolding storeTelemetry_def
  by (rule agree_bind [OF agree_x_now])
     (auto simp: agree_def db_insert_def next_fault_def dbView_def Let_def split: list.splits)

lemma agree_storeTemperatureAction:
  "agree (storeTemperatureAction tel tg) (storeTemperatureAction tel tg)"
  unfolding storeTemperatureAction_def
  by (rule agree_bind [OF agree_x_now])
     (auto simp: agree_def db_insert_def next_fault_def dbView_def Let_def split: list.splits)

lemma agree_storeAlert: "agree (storeAlert tel ev a) (storeAlert tel ev a)"
  unfolding storeAlert_def Let_def
  apply (rule agree_bind)
   apply (simp add: agree_thresholdOf agree_ret)
  apply (rule agree_bind [OF agree_x_now])
  apply (auto simp: agree_def db_insert_def next_fault_def dbView_def Let_def split: list.splits)
  done

lemma agree_processAction: "agree (processAction cfg tel ev a) (processAction cfg' tel ev a)"
  unfolding processAction_def
  by (intro agree_bind agree_whenever agree_storeTelemetry agree_storeAlert
        agree_sendNotification agree_thresholdOf agree_storeTemperatureAction)

lemma agree_processActions:
  "agree (processActions cfg tel ev acts) (processActions cfg' tel ev acts)"
  by (induction acts) (simp_all add: agree_ret agree_bind agree_processAction)

lemma agree_processEvent: "agree (processEvent cfg e) (processEvent cfg' e)"
  by (simp add: processEvent_def agree_processActions)

lemma agree_JSON_parse: "agree (JSON_parse b) (JSON_parse b)"
  by (simp add: JSON_parse_def agree_ret agree_raise split: option.splits)

lemma agree_executorHandler: "agree (executorHandler cfg msg) (executorHandler cfg' msg)"
  unfolding executorHandler_def by (intro agree_bind agree_JSON_parse agree_processEvent)

lemma processMessages_agree:
  assumes "\<And>m. agree (h m) (h' m)" and "dbView w = dbView w'"
  shows "fst (processMessages h msgs processed w) = fst (processMessages h' msgs processed w') \<and>
    dbView (snd (processMessages h msgs processed w)) =
      dbView (snd (processMessages h' msgs processed w'))"
  using assms(2)
proof (induction msgs arbitrary: processed w w')
  case Nil
  then show ?case by simp
next
  case (Cons m ms)
  obtain r u where a: "h m w = (r, u)" by (cases "h m w")
  obtain r' u' where b: "h' m w' = (r', u')" by (cases "h' m w'")
  from assms(1) [of m, unfolded agree_def, rule_format, OF Cons.prems] a b
  have rr: "r = r'" and uu: "dbView u = dbView u'" by simp_all
  show ?case using a b rr Cons.IH [OF uu] by (cases r') auto
qed

lemma dbView_fetch_faults: "dbView (w\<lparr>x_fetch_faults := fs\<rparr>) = dbView w"
  by (simp add: dbView_def)

text \<open>
  Claim C7: \<open>sendNotification\<close> returns without an error and leaves the database as it is,
  whatever the outcome of the webhook request and whether the webhook is enabled or not.
  After an alert has been stored, the notification that follows does not fail the action
  and does not change the alerts. The result of \<open>processEvent\<close>, the database it leaves and
  the entries that a batch of events acknowledges do not depend on the outcomes of the
  webhook requests (\<open>fs\<close>) nor on the webhook configuration (\<open>cfg\<close>, \<open>cfg'\<close>).
\<close>

theorem sendNotification_best_effort:
  "fst (sendNotification cfg tel ev w) = Inr () \<and>
   dbView (snd (sendNotification cfg tel ev w)) = dbView w \<and>
   (fst (storeAlert tel ev a w) = Inr () \<longrightarrow>
      fst (bind (storeAlert tel ev a) (\<lambda>_. sendNotification cfg tel ev) w) = Inr () \<and>
      alerts (snd (bind (storeAlert tel ev a) (\<lambda>_. sendNotification cfg tel ev) w)) =
        alerts (snd (storeAlert tel ev a w))) \<and>
   fst (processEvent cfg e (w\<lparr>x_fetch_faults := fs\<rparr>)) = fst (processEvent cfg' e w) \<and>
   dbView (snd (processEvent cfg e (w\<lparr>x_fetch_faults := fs\<rparr>))) =
     dbView (snd (processEvent cfg' e w)) \<and>
   fst (processMessages (executorHandler cfg) msgs [] (w\<lparr>x_fetch_faults := fs\<rparr>)) =
     fst (processMessages (executorHandler cfg') msgs [] w)"
proof -
  have v: "dbView (w\<lparr>x_fetch_faults := fs\<rparr>) = dbView w"
    by (rule dbView_fetch_faults)
  have s: "fst (storeAlert tel ev a w) = Inr () \<longrightarrow>
      fst (bind (storeAlert tel ev a) (\<lambda>_. sendNotification cfg tel ev) w) = Inr () \<and>
      alerts (snd (bind (storeAlert tel ev a) (\<lambda>_. sendNotification cfg tel ev) w)) =
        alerts (snd (storeAlert tel ev a w))"
  proof
    assume ok: "fst (storeAlert tel ev a w) = Inr ()"
    obtain u where u: "storeAlert tel ev a w = (Inr (), u)"
      using ok by (cases "storeAlert tel ev a w") simp
    have "alerts (snd (sendNotification cfg tel ev u)) = alerts u"
      using sendNotification_dbView [of cfg tel ev u] by (simp add: dbView_def)
    then show "fst (bind (storeAlert tel ev a) (\<lambda>_. sendNotification cfg tel ev) w) = Inr () \<and>
      alerts (snd (bind (storeAlert tel ev a) (\<lambda>_. sendNotification cfg tel ev) w)) =
        alerts (snd (storeAlert tel ev a w))"
      using u by (simp add: bind_def sendNotification_returns)
  qed
  from agree_processEvent [of cfg e cfg', unfolded agree_def, rule_format, OF v]
    processMessages_agree [of "executorHandler cfg" "executorHandler cfg'", OF agree_executorHandler v]
    s
  show ?thesis
    by (simp add: sendNotification_returns sendNotification_dbView)
qed

lemma example_critical_event_eq:
  "example_critical_event =
     \<lparr>event_type = ''TELEMETRY_PROCESSED'', telemetry = example_telemetry,
      evaluation = \<lparr>alert_type = ''CRITICAL'',
                    thresholds = Some \<lparr>warning = Fin (-10), critical = Fin (-5), target = Fin (-18)\<rparr>,
                    actions = [''LOG'', ''ADJUST_TEMPERATURE'', ''NOTIFY_CRITICAL''],
                    message = None\<rparr>,
      processed_at = ''2026-01-01T00:00:00.500Z''\<rparr>"
  by (simp add: example_critical_event_def telemetryEvent_def Let_def determineAlertType_def
        determineActions_def example_telemetry_def config_thresholds_default_def
        alertTypes_defs actionTypes_defs)

text \<open>
  With the next webhook request failing, the alert of a NOTIFY_CRITICAL action is stored
  and the action returns.
\<close>

theorem sendNotification_best_effort_witness:
  "x_fetch_faults failing_webhook_world = [True] \<and>
   fst (storeAlert example_telemetry (evaluation example_critical_event) ''NOTIFY_CRITICAL''
          failing_webhook_world) = Inr () \<and>
   fst (bind (storeAlert example_telemetry (evaluation example_critical_event) ''NOTIFY_CRITICAL'')
          (\<lambda>_. sendNotification example_executor_config example_telemetry
                  (evaluation example_critical_event)) failing_webhook_world) = Inr () \<and>
   map a_action_taken
     (alerts (snd (bind (storeAlert example_telemetry (evaluation example_critical_event)
                           ''NOTIFY_CRITICAL'')
          (\<lambda>_. sendNotification example_executor_config example_telemetry
                  (evaluation example_critical_event)) failing_webhook_world))) =
     [''NOTIFY_CRITICAL'']"
proof -
  have s: "storeAlert example_telemetry (evaluation example_critical_event) ''NOTIFY_CRITICAL''
             failing_webhook_world =
           (Inr (), failing_webhook_world\<lparr>alerts :=
              [\<lparr>a_ship_id = ''ship_1'', a_temperature = Fin (-1), a_threshold = Some (Fin (-5)),
                a_alert_type = ''CRITICAL'', a_action_taken = ''NOTIFY_CRITICAL'',
                a_message = ThresholdText ''CRITICAL'' ''ship_1'' (Some ''ship_1_default_sensor'')
                              (Fin (-1)) (Fin (-5)),
                a_created_at = ''2026-01-01T00:00:01.000Z''\<rparr>]\<rparr>)"
    by (simp add: storeAlert_def bind_def ret_def x_now_def db_insert_def next_fault_def
          thresholdOf_def messageOr_def example_critical_event_eq example_telemetry_def
          failing_webhook_world_def example_executor_world_def alertTypes_defs)
  have f: "x_fetch_faults failing_webhook_world = [True]"
    by (simp add: failing_webhook_world_def example_executor_world_def)
  from sendNotification_best_effort
    [of example_executor_config example_telemetry "evaluation example_critical_event"
        failing_webhook_world "''NOTIFY_CRITICAL''"]
  show ?thesis using f by (simp add: s)
qed

subsection \<open>Dispatch of the actions\<close>

lemma db_insert_ok: "x_db_faults w = [] \<Longrightarrow> db_insert ins w = (Inr (), ins (w\<lparr>x_db_faults := []\<rparr>))"
  by (simp add: db_insert_def next_fault_def)

text \<open>
  Claim C2, as stated, says that the event of a reading of -1 under the thresholds -10 and
  -5 makes exactly one alert insert. The event carries the actions LOG,
  ADJUST_TEMPERATURE and NOTIFY_CRITICAL, and both ADJUST_TEMPERATURE and NOTIFY_CRITICAL
  store an alert: two alert rows are inserted.
\<close>

theorem processEvent_critical_counterexample:
  "actions (evaluation example_critical_event) = [''LOG'', ''ADJUST_TEMPERATURE'', ''NOTIFY_CRITICAL''] \<and>
   alerts example_executor_world = [] \<and>
   fst (processEvent example_executor_config example_critical_event example_executor_world) = Inr () \<and>
   map a_alert_type
     (alerts (snd (processEvent example_executor_config example_critical_event
                     example_executor_world))) = [''CRITICAL'', ''CRITICAL''] \<and>
   map a_action_taken
     (alerts (snd (processEvent example_executor_config example_critical_event
                     example_executor_world))) = [''ADJUST_TEMPERATURE'', ''NOTIFY_CRITICAL'']"
  by (simp add: example_critical_event_eq processEvent_def processAction_def whenever_def
        bind_def ret_def storeTelemetry_def storeAlert_def storeTemperatureAction_def
        sendNotification_def x_now_def db_insert_def next_fault_def thresholdOf_def messageOr_def
        example_telemetry_def example_executor_world_def example_executor_config_def
        alertTypes_defs actionTypes_defs)

lemma bind_ret_left: "bind (ret x) f = f x"
  by (simp add: bind_def ret_def)

lemma bind_ret_right: "bind m ret = m"
  by (rule ext) (auto simp: bind_def ret_def split: sum.splits prod.splits)

lemma bind_assoc: "bind (bind m f) g = bind m (\<lambda>x. bind (f x) g)"
  by (rule ext) (auto simp: bind_def split: sum.splits prod.splits)

lemma bind_step: "m w = (Inr x, w') \<Longrightarrow> bind m f w = f x w'"
  by (simp add: bind_def)

lemma storeTelemetry_ok:
  "x_db_faults w = [] \<Longrightarrow> storeTelemetry tel w =
     (Inr (), w\<lparr>x_db_faults := [], telemetry_readings := telemetry_readings w @
       [\<lparr>r_ship_id = ship_id tel, r_sensor_id = sensor_id tel, r_temperature = temp tel,
         r_timestamp = timestamp tel, r_created_at = x_clock w\<rparr>]\<rparr>)"
  by (simp add: storeTelemetry_def bind_def x_now_def db_insert_ok)

lemma storeTemperatureAction_ok:
  "x_db_faults w = [] \<Longrightarrow> storeTemperatureAction tel tg w =
     (Inr (), w\<lparr>x_db_faults := [], temperature_actions := temperature_actions w @
       [\<lparr>t_ship_id = ship_id tel, t_action_type = actionTypes_ADJUST_TEMPERATURE,
         t_current_temp = temp tel, t_target_temp = tg, t_status = ''PENDING'',
         t_created_at = x_clock w\<rparr>]\<rparr>)"
  by (simp add: storeTemperatureAction_def bind_def x_now_def db_insert_ok)

lemma storeAlert_critical_ok:
  "x_db_faults w = [] \<Longrightarrow> alert_type ev = alertTypes_CRITICAL \<Longrightarrow> thresholds ev = Some ths \<Longrightarrow>
   message ev = None \<Longrightarrow>
   storeAlert tel ev a w =
     (Inr (), w\<lparr>x_db_faults := [], alerts := alerts w @
       [\<lparr>a_ship_id = ship_id tel, a_temperature = temp tel, a_threshold = Some (critical ths),
         a_alert_type = alertTypes_CRITICAL, a_action_taken = a,
         a_message = ThresholdText alertTypes_CRITICAL (ship_id tel) (sensor_id tel) (temp tel) (critical ths),
         a_created_at = x_clock w\<rparr>]\<rparr>)"
  by (simp add: storeAlert_def bind_def ret_def x_now_def db_insert_ok thresholdOf_def messageOr_def)

lemma sendNotification_fields:
  "fst (sendNotification cfg tel ev w) = Inr () \<and>
   telemetry_readings (snd (sendNotification cfg tel ev w)) = telemetry_readings w \<and>
   alerts (snd (sendNotification cfg tel ev w)) = alerts w \<and>
   temperature_actions (snd (sendNotification cfg tel ev w)) = temperature_actions w \<and>
   length (webhook_posts (snd (sendNotification cfg tel ev w))) =
     length (webhook_posts w) +
       (if webhook_enabled cfg \<and> webhook_url cfg \<noteq> None \<and> webhook_url cfg \<noteq> Some [] then 1 else 0)"
  by (simp add: sendNotification_def split: option.splits prod.splits)

lemma processActions_critical:
  "processActions cfg tel ev [actionTypes_LOG, actionTypes_ADJUST_TEMPERATURE, actionTypes_NOTIFY_CRITICAL] =
     bind (storeTelemetry tel) (\<lambda>_.
     bind (storeAlert tel ev actionTypes_ADJUST_TEMPERATURE) (\<lambda>_.
     bind (thresholdOf ev target) (\<lambda>tg.
     bind (storeTemperatureAction tel tg) (\<lambda>_.
     bind (storeAlert tel ev actionTypes_NOTIFY_CRITICAL) (\<lambda>_.
     sendNotification cfg tel ev)))))"
  by (simp add: processAction_def whenever_def actionTypes_defs bind_ret_left bind_ret_right bind_assoc)

text \<open>
  Claim C2, amended: for the event of a reading of -1 under the thresholds -10 (warning)
  and -5 (critical), which is CRITICAL with the actions LOG, ADJUST_TEMPERATURE,
  NOTIFY_CRITICAL, and when the database rejects no insert, \<open>processEvent\<close> returns after
  exactly one insert into the telemetry history, exactly two alert inserts of type CRITICAL
  (one for ADJUST_TEMPERATURE, one for NOTIFY_CRITICAL), exactly one temperature action
  insert with status PENDING, and exactly one webhook request when the webhook is enabled
  and has a URL (none otherwise).
\<close>

theorem processEvent_critical_scenario:
  assumes "x_db_faults w = []"
    and "e = telemetryEvent \<lparr>ship_id = sid, sensor_id = sn, temp = Fin (-1), timestamp = ts\<rparr>
               \<lparr>warning = Fin (-10), critical = Fin (-5), target = tg\<rparr> t"
  shows "alert_type (evaluation e) = alertTypes_CRITICAL \<and>
    actions (evaluation e) = [actionTypes_LOG, actionTypes_ADJUST_TEMPERATURE, actionTypes_NOTIFY_CRITICAL] \<and>
    fst (processEvent cfg e w) = Inr () \<and>
    telemetry_readings (snd (processEvent cfg e w)) = telemetry_readings w @
      [\<lparr>r_ship_id = sid, r_sensor_id = sn, r_temperature = Fin (-1), r_timestamp = ts,
        r_created_at = x_clock w\<rparr>] \<and>
    alerts (snd (processEvent cfg e w)) = alerts w @
      [\<lparr>a_ship_id = sid, a_temperature = Fin (-1), a_threshold = Some (Fin (-5)),
        a_alert_type = alertTypes_CRITICAL, a_action_taken = actionTypes_ADJUST_TEMPERATURE,
        a_message = ThresholdText alertTypes_CRITICAL sid sn (Fin (-1)) (Fin (-5)),
        a_created_at = x_clock w\<rparr>,
       \<lparr>a_ship_id = sid, a_temperature = Fin (-1), a_threshold = Some (Fin (-5)),
        a_alert_type = alertTypes_CRITICAL, a_action_taken = actionTypes_NOTIFY_CRITICAL,
        a_message = ThresholdText alertTypes_CRITICAL sid sn (Fin (-1)) (Fin (-5)),
        a_created_at = x_clock w\<rparr>] \<and>
    temperature_actions (snd (processEvent cfg e w)) = temperature_actions w @
      [\<lparr>t_ship_id = sid, t_action_type = actionTypes_ADJUST_TEMPERATURE,
        t_current_temp = Fin (-1), t_target_temp = tg, t_status = ''PENDING'',
        t_created_at = x_clock w\<rparr>] \<and>
    length (webhook_posts (snd (processEvent cfg e w))) =
      length (webhook_posts w) +
        (if webhook_enabled cfg \<and> webhook_url cfg \<noteq> None \<and> webhook_url cfg \<noteq> Some [] then 1 else 0)"
proof -
  define tel where "tel = \<lparr>ship_id = sid, sensor_id = sn, temp = Fin (-1), timestamp = ts\<rparr>"
  define ths where "ths = \<lparr>warning = Fin (-10), critical = Fin (-5), target = tg\<rparr>"
  define ev where "ev = \<lparr>alert_type = alertTypes_CRITICAL, thresholds = Some ths,
     actions = [actionTypes_LOG, actionTypes_ADJUST_TEMPERATURE, actionTypes_NOTIFY_CRITICAL],
     message = None\<rparr>"
  have e: "e = \<lparr>event_type = ''TELEMETRY_PROCESSED'', telemetry = tel, evaluation = ev,
      processed_at = t\<rparr>"
    unfolding assms(2) tel_def ths_def ev_def
    by (simp add: telemetryEvent_def Let_def determineAlertType_def determineActions_def
          alertTypes_defs)
  have ev: "alert_type ev = alertTypes_CRITICAL" "thresholds ev = Some ths" "message ev = None"
    "actions ev = [actionTypes_LOG, actionTypes_ADJUST_TEMPERATURE, actionTypes_NOTIFY_CRITICAL]"
    by (simp_all add: ev_def)
  have pe: "processEvent cfg e = processActions cfg tel ev
          [actionTypes_LOG, actionTypes_ADJUST_TEMPERATURE, actionTypes_NOTIFY_CRITICAL]"
    by (rule ext) (simp add: processEvent_def e ev del: processActions.simps)
  define w1 where "w1 = w\<lparr>x_db_faults := [], telemetry_readings := telemetry_readings w @
       [\<lparr>r_ship_id = ship_id tel, r_sensor_id = sensor_id tel, r_temperature = temp tel,
         r_timestamp = timestamp tel, r_created_at = x_clock w\<rparr>]\<rparr>"
  define w2 where "w2 = w1\<lparr>x_db_faults := [], alerts := alerts w1 @
       [\<lparr>a_ship_id = ship_id tel, a_temperature = temp tel, a_threshold = Some (critical ths),
         a_alert_type = alertTypes_CRITICAL, a_action_taken = actionTypes_ADJUST_TEMPERATURE,
         a_message = ThresholdText alertTypes_CRITICAL (ship_id tel) (sensor_id tel) (temp tel) (critical ths),
         a_created_at = x_clock w1\<rparr>]\<rparr>"
  define w3 where "w3 = w2\<lparr>x_db_faults := [], temperature_actions := temperature_actions w2 @
       [\<lparr>t_ship_id = ship_id tel, t_action_type = actionTypes_ADJUST_TEMPERATURE,
         t_current_temp = temp tel, t_target_temp = target ths, t_status = ''PENDING'',
         t_created_at = x_clock w2\<rparr>]\<rparr>"
  define w4 where "w4 = w3\<lparr>x_db_faults := [], alerts := alerts w3 @
       [\<lparr>a_ship_id = ship_id tel, a_temperature = temp tel, a_threshold = Some (critical ths),
         a_alert_type = alertTypes_CRITICAL, a_action_taken = actionTypes_NOTIFY_CRITICAL,
         a_message = ThresholdText alertTypes_CRITICAL (ship_id tel) (sensor_id tel) (temp tel) (critical ths),
         a_created_at = x_clock w3\<rparr>]\<rparr>"
  have f: "x_db_faults w1 = []" "x_db_faults w2 = []" "x_db_faults w3 = []"
    by (simp_all add: w1_def w2_def w3_def)
  have s1: "storeTelemetry tel w = (Inr (), w1)"
    unfolding w1_def by (rule storeTelemetry_ok [OF assms(1)])
  have s2: "storeAlert tel ev actionTypes_ADJUST_TEMPERATURE w1 = (Inr (), w2)"
    unfolding w2_def by (rule storeAlert_critical_ok [OF f(1) ev(1,2,3)])
  have th: "thresholdOf ev target w2 = (Inr (target ths), w2)"
    by (simp add: thresholdOf_def ev ret_def)
  have s3: "storeTemperatureAction tel (target ths) w2 = (Inr (), w3)"
    unfolding w3_def by (rule storeTemperatureAction_ok [OF f(2)])
  have s4: "storeAlert tel ev actionTypes_NOTIFY_CRITICAL w3 = (Inr (), w4)"
    unfolding w4_def by (rule storeAlert_critical_ok [OF f(3) ev(1,2,3)])
  have run: "processEvent cfg e w = sendNotification cfg tel ev w4"
    unfolding pe processActions_critical
    by (simp add: bind_def s1 s2 th s3 s4)
  have w4: "telemetry_readings w4 = telemetry_readings w @
       [\<lparr>r_ship_id = ship_id tel, r_sensor_id = sensor_id tel, r_temperature = temp tel,
         r_timestamp = timestamp tel, r_created_at = x_clock w\<rparr>]"
      "alerts w4 = alerts w @
       [\<lparr>a_ship_id = ship_id tel, a_temperature = temp tel, a_threshold = Some (critical ths),
         a_alert_type = alertTypes_CRITICAL, a_action_taken = actionTypes_ADJUST_TEMPERATURE,
         a_message = ThresholdText alertTypes_CRITICAL (ship_id tel) (sensor_id tel) (temp tel) (critical ths),
         a_created_at = x_clock w\<rparr>,
        \<lparr>a_ship_id = ship_id tel, a_temperature = temp tel, a_threshold = Some (critical ths),
         a_alert_type = alertTypes_CRITICAL, a_action_taken = actionTypes_NOTIFY_CRITICAL,
         a_message = ThresholdText alertTypes_CRITICAL (ship_id tel) (sensor_id tel) (temp tel) (critical ths),
         a_created_at = x_clock w\<rparr>]"
      "temperature_actions w4 = temperature_actions w @
       [\<lparr>t_ship_id = ship_id tel, t_action_type = actionTypes_ADJUST_TEMPERATURE,
         t_current_temp = temp tel, t_target_temp = target ths, t_status = ''PENDING'',
         t_created_at = x_clock w\<rparr>]"
      "webhook_posts w4 = webhook_posts w"
    by (simp_all add: w4_def w3_def w2_def w1_def)
  show ?thesis
    unfolding run
    by (simp add: sendNotification_fields e ev w4) (simp add: tel_def ths_def)
qed

theorem processEvent_critical_scenario_witness:
  "x_db_faults example_executor_world = [] \<and>
   example_critical_event =
     telemetryEvent \<lparr>ship_id = ''ship_1'', sensor_id = Some ''ship_1_default_sensor'',
                      temp = Fin (-1), timestamp = ''2026-01-01T00:00:00.000Z''\<rparr>
       \<lparr>warning = Fin (-10), critical = Fin (-5), target = Fin (-18)\<rparr>
       ''2026-01-01T00:00:00.500Z'' \<and>
   fst (processEvent example_executor_config example_critical_event example_executor_world) = Inr () \<and>
   length (telemetry_readings (snd (processEvent example_executor_config example_critical_event
      example_executor_world))) = 1 \<and>
   length (alerts (snd (processEvent example_executor_config example_critical_event
      example_executor_world))) = 2 \<and>
   map t_status (temperature_actions (snd (processEvent example_executor_config
      example_critical_event example_executor_world))) = [''PENDING''] \<and>
   length (webhook_posts (snd (processEvent example_executor_config example_critical_event
      example_executor_world))) = 1"
proof -
  have a: "x_db_faults example_executor_world = []"
    by (simp add: example_executor_world_def)
  have b: "example_critical_event =
     telemetryEvent \<lparr>ship_id = ''ship_1'', sensor_id = Some ''ship_1_default_sensor'',
                      temp = Fin (-1), timestamp = ''2026-01-01T00:00:00.000Z''\<rparr>
       \<lparr>warning = Fin (-10), critical = Fin (-5), target = Fin (-18)\<rparr>
       ''2026-01-01T00:00:00.500Z''"
    by (simp add: example_critical_event_def example_telemetry_def config_thresholds_default_def)
  have c: "telemetry_readings example_executor_world = []" "alerts example_executor_world = []"
    "temperature_actions example_executor_world = []" "webhook_posts example_executor_world = []"
    by (simp_all add: example_executor_world_def)
  from processEvent_critical_scenario [OF a b, of example_executor_config]
  show ?thesis using a b c by (simp add: example_executor_config_def)
qed

lemma storeTelemetry_alerts:
  "alerts (snd (storeTelemetry tel w)) = alerts w \<and> x_clock (snd (storeTelemetry tel w)) = x_clock w"
  by (auto simp: storeTelemetry_def bind_def x_now_def db_insert_def next_fault_def Let_def split: list.splits)

lemma storeTemperatureAction_alerts:
  "alerts (snd (storeTemperatureAction tel tg w)) = alerts w \<and> x_clock (snd (storeTemperatureAction tel tg w)) = x_clock w"
  by (auto simp: storeTemperatureAction_def bind_def x_now_def db_insert_def next_fault_def Let_def split: list.splits)

lemma sendNotification_alerts:
  "alerts (snd (sendNotification cfg tel ev w)) = alerts w \<and> x_clock (snd (sendNotification cfg tel ev w)) = x_clock w"
  by (simp add: sendNotification_def split: option.splits prod.splits)

lemma storeAlert_plain:
  assumes "alert_type ev \<noteq> alertTypes_CRITICAL" and "alert_type ev \<noteq> alertTypes_WARNING"
  shows "x_clock (snd (storeAlert tel ev a w)) = x_clock w \<and>
    (fst (storeAlert tel ev a w) = Inr () \<longrightarrow>
       alerts (snd (storeAlert tel ev a w)) = alerts w @ [plainAlert tel ev (x_clock w) a])"
  using assms
  by (auto simp: storeAlert_def bind_def ret_def x_now_def db_insert_def next_fault_def Let_def plainAlert_def
      split: list.splits)

lemma thresholdOf_world: "snd (thresholdOf ev c w) = w"
  by (simp add: thresholdOf_def raise_def ret_def split: option.splits)

lemma bind_Inr:
  "fst (bind m f w) = Inr y \<Longrightarrow> \<exists>x. fst (m w) = Inr x \<and> fst (f x (snd (m w))) = Inr y \<and> snd (bind m f w) = snd (f x (snd (m w)))"
  by (cases "m w") (auto simp: bind_def split: sum.splits)

lemma processAction_plain:
  assumes "alert_type ev \<noteq> alertTypes_CRITICAL" and "alert_type ev \<noteq> alertTypes_WARNING"
    and "fst (processAction cfg tel ev a w) = Inr ()"
  shows "x_clock (snd (processAction cfg tel ev a w)) = x_clock w \<and>
       alerts (snd (processAction cfg tel ev a w)) =
         alerts w @ (if a \<in> set alertActions then [plainAlert tel ev (x_clock w) a] else [])"
proof -
  note sa = storeAlert_plain [OF assms(1,2)]
  consider (log) "a = actionTypes_LOG" | (nw) "a = actionTypes_NOTIFY_WARNING"
    | (nc) "a = actionTypes_NOTIFY_CRITICAL" | (adj) "a = actionTypes_ADJUST_TEMPERATURE"
    | (tr) "a = actionTypes_TREND_ALERT"
    | (other) "a \<notin> {actionTypes_LOG, actionTypes_NOTIFY_WARNING, actionTypes_NOTIFY_CRITICAL,
         actionTypes_ADJUST_TEMPERATURE, actionTypes_TREND_ALERT}" by blast
  then show ?thesis
  proof cases
    case log
    then have eq: "processAction cfg tel ev a = storeTelemetry tel"
      by (auto simp: processAction_def whenever_def bind_def ret_def actionTypes_defs split: sum.splits prod.splits)
    show ?thesis using log unfolding eq
      by (simp add: storeTelemetry_alerts alertActions_def actionTypes_defs)
  next
    case nw
    then have eq: "processAction cfg tel ev a = bind (storeAlert tel ev a) (\<lambda>_. sendNotification cfg tel ev)"
      by (auto simp: processAction_def whenever_def bind_def ret_def actionTypes_defs split: sum.splits prod.splits)
    from bind_Inr [OF assms(3) [unfolded eq] ] sa [of tel a w] show ?thesis using nw unfolding eq
      by (auto simp: sendNotification_alerts alertActions_def)
  next
    case nc
    then have eq: "processAction cfg tel ev a = bind (storeAlert tel ev a) (\<lambda>_. sendNotification cfg tel ev)"
      by (auto simp: processAction_def whenever_def bind_def ret_def actionTypes_defs split: sum.splits prod.splits)
    from bind_Inr [OF assms(3) [unfolded eq] ] sa [of tel a w] show ?thesis using nc unfolding eq
      by (auto simp: sendNotification_alerts alertActions_def)
  next
    case adj
    then have eq: "processAction cfg tel ev a = bind (storeAlert tel ev a) (\<lambda>_.
              bind (thresholdOf ev target) (\<lambda>tg. storeTemperatureAction tel tg))"
      by (auto simp: processAction_def whenever_def bind_def ret_def actionTypes_defs split: sum.splits prod.splits)
    from bind_Inr [OF assms(3) [unfolded eq] ] obtain x where
      1: "fst (storeAlert tel ev a w) = Inr x"
      and 2: "fst (bind (thresholdOf ev target) (\<lambda>tg. storeTemperatureAction tel tg) (snd (storeAlert tel ev a w))) = Inr ()"
      and 3: "snd (bind (storeAlert tel ev a) (\<lambda>_. bind (thresholdOf ev target) (\<lambda>tg. storeTemperatureAction tel tg)) w)
         = snd (bind (thresholdOf ev target) (\<lambda>tg. storeTemperatureAction tel tg) (snd (storeAlert tel ev a w)))"
      by blast
    from bind_Inr [OF 2] obtain tg where
      4: "snd (bind (thresholdOf ev target) (\<lambda>tg. storeTemperatureAction tel tg) (snd (storeAlert tel ev a w)))
          = snd (storeTemperatureAction tel tg (snd (storeAlert tel ev a w)))"
      by (auto simp: thresholdOf_world)
    show ?thesis using adj 1 sa [of tel a w] unfolding eq 3 4
      by (auto simp: storeTemperatureAction_alerts alertActions_def)
  next
    case tr
    then have eq: "processAction cfg tel ev a = storeAlert tel ev a"
      by (auto simp: processAction_def whenever_def bind_def ret_def actionTypes_defs split: sum.splits prod.splits)
    show ?thesis using tr sa [of tel a w] assms(3) unfolding eq
      by (auto simp: alertActions_def)
  next
    case other
    then have eq: "processAction cfg tel ev a = ret ()"
      by (auto simp: processAction_def whenever_def bind_def ret_def)
    show ?thesis using other unfolding eq by (auto simp: ret_def alertActions_def)
  qed
qed

lemma processActions_plain:
  assumes "alert_type ev \<noteq> alertTypes_CRITICAL" and "alert_type ev \<noteq> alertTypes_WARNING"
  shows "fst (processActions cfg tel ev acts w) = Inr () \<Longrightarrow>
    x_clock (snd (processActions cfg tel ev acts w)) = x_clock w \<and>
    alerts (snd (processActions cfg tel ev acts w)) =
      alerts w @ map (plainAlert tel ev (x_clock w)) (filter (\<lambda>a. a \<in> set alertActions) acts)"
proof (induction acts arbitrary: w)
  case Nil
  then show ?case by (simp add: ret_def)
next
  case (Cons a acts)
  have p: "fst (bind (processAction cfg tel ev a) (\<lambda>_. processActions cfg tel ev acts) w) = Inr ()"
    using Cons.prems by simp
  from bind_Inr [OF p] obtain x where
    s1: "fst (processAction cfg tel ev a w) = Inr x"
    and s2: "fst (processActions cfg tel ev acts (snd (processAction cfg tel ev a w))) = Inr ()"
    and s3: "snd (bind (processAction cfg tel ev a) (\<lambda>_. processActions cfg tel ev acts) w)
              = snd (processActions cfg tel ev acts (snd (processAction cfg tel ev a w)))"
    by blast
  from s1 have s1u: "fst (processAction cfg tel ev a w) = Inr ()" by simp
  have s4: "snd (processActions cfg tel ev (a # acts) w)
              = snd (processActions cfg tel ev acts (snd (processAction cfg tel ev a w)))"
    using s3 by simp
  from processAction_plain [OF assms s1u] Cons.IH [OF s2] show ?case
    unfolding s4 by simp
qed


text \<open>
  Claim C9, as stated, says that the alert stored for a TREND_ALERT action has no
  threshold. The trend event of the worker stores an alert whose threshold column is the
  number 0, not an absent value.
\<close>

theorem processEvent_trend_threshold_counterexample:
  "actions (evaluation example_trend_event) = [''TREND_ALERT''] \<and>
   alerts example_executor_world = [] \<and>
   fst (processEvent example_executor_config example_trend_event example_executor_world) = Inr () \<and>
   map a_alert_type (alerts (snd (processEvent example_executor_config example_trend_event
      example_executor_world))) = [''TREND_ANOMALY''] \<and>
   map a_threshold (alerts (snd (processEvent example_executor_config example_trend_event
      example_executor_world))) = [Some (Fin 0)] \<and>
   map a_threshold (alerts (snd (processEvent example_executor_config example_trend_event
      example_executor_world))) \<noteq> [None]"
  by (simp add: example_trend_event_def trendEvent_def processEvent_def processAction_def
        whenever_def bind_def ret_def storeAlert_def x_now_def db_insert_def next_fault_def
        messageOr_def example_executor_world_def example_worker_config_def
        alertTypes_defs actionTypes_defs)

text \<open>
  Claim C9, amended: for every event of type TREND_ANOMALY whose processing returns,
  \<open>processEvent\<close> appends to the alerts one row for each of its actions that stores an
  alert, TREND_ALERT among them; every appended row has the alert type TREND_ANOMALY and
  the threshold 0, and when the actions contain TREND_ALERT one of the rows is the one of
  that action. The processing of the trend event of the worker returns when the database
  rejects no insert.
\<close>

theorem processEvent_trend_alert:
  assumes "alert_type (evaluation e) = alertTypes_TREND_ANOMALY"
    and "fst (processEvent cfg e w) = Inr ()"
  shows "(\<exists>rows. alerts (snd (processEvent cfg e w)) = alerts w @ rows \<and>
            (\<forall>r \<in> set rows. a_alert_type r = alertTypes_TREND_ANOMALY \<and> a_threshold r = Some (Fin 0)) \<and>
            map a_action_taken rows = filter (\<lambda>a. a \<in> set alertActions) (actions (evaluation e)) \<and>
            (actionTypes_TREND_ALERT \<in> set (actions (evaluation e)) \<longrightarrow>
               (\<exists>r \<in> set rows. a_action_taken r = actionTypes_TREND_ALERT))) \<and>
         (x_db_faults w = [] \<longrightarrow>
            fst (processEvent cfg (trendEvent wcfg shipId newest increase t) w) = Inr ())"
proof -
  let ?ev = "evaluation e" and ?tel = "telemetry e"
  let ?rows = "map (plainAlert ?tel ?ev (x_clock w))
                 (filter (\<lambda>a. a \<in> set alertActions) (actions ?ev))"
  have nc: "alert_type ?ev \<noteq> alertTypes_CRITICAL" and nw: "alert_type ?ev \<noteq> alertTypes_WARNING"
    using assms(1) by (simp_all add: alertTypes_defs)
  have run: "fst (processActions cfg ?tel ?ev (actions ?ev) w) = Inr ()"
    using assms(2) by (simp add: processEvent_def)
  have al: "alerts (snd (processEvent cfg e w)) = alerts w @ ?rows"
    using processActions_plain [OF nc nw run] by (simp add: processEvent_def)
  have ty: "\<forall>r \<in> set ?rows. a_alert_type r = alertTypes_TREND_ANOMALY \<and> a_threshold r = Some (Fin 0)"
    using assms(1) by (auto simp: plainAlert_def)
  have ac: "map a_action_taken ?rows = filter (\<lambda>a. a \<in> set alertActions) (actions ?ev)"
    by (induction "actions ?ev") (simp_all add: plainAlert_def comp_def)
  have tr: "actionTypes_TREND_ALERT \<in> set (actions ?ev) \<longrightarrow>
              (\<exists>r \<in> set ?rows. a_action_taken r = actionTypes_TREND_ALERT)"
    by (auto simp: plainAlert_def alertActions_def)
  have ok: "x_db_faults w = [] \<longrightarrow>
            fst (processEvent cfg (trendEvent wcfg shipId newest increase t) w) = Inr ()"
    by (simp add: trendEvent_def processEvent_def processAction_def whenever_def bind_def ret_def
          storeAlert_def x_now_def db_insert_ok alertTypes_defs actionTypes_defs)
  from al ty ac tr ok show ?thesis by blast
qed

theorem processEvent_trend_alert_witness:
  "alert_type (evaluation example_trend_event) = alertTypes_TREND_ANOMALY \<and>
   fst (processEvent example_executor_config example_trend_event example_executor_world) = Inr () \<and>
   actionTypes_TREND_ALERT \<in> set (actions (evaluation example_trend_event)) \<and>
   x_db_faults example_executor_world = [] \<and>
   map a_action_taken (alerts (snd (processEvent example_executor_config example_trend_event
      example_executor_world))) = [''TREND_ALERT''] \<and>
   map a_alert_type (alerts (snd (processEvent example_executor_config example_trend_event
      example_executor_world))) = [''TREND_ANOMALY''] \<and>
   map a_threshold (alerts (snd (processEvent example_executor_config example_trend_event
      example_executor_world))) = [Some (Fin 0)]"
proof -
  have a: "alert_type (evaluation example_trend_event) = alertTypes_TREND_ANOMALY"
    by (simp add: example_trend_event_def trendEvent_def)
  have acts: "actions (evaluation example_trend_event) = [actionTypes_TREND_ALERT]"
    by (simp add: example_trend_event_def trendEvent_def)
  have f: "x_db_faults example_executor_world = []" and al: "alerts example_executor_world = []"
    by (simp_all add: example_executor_world_def)
  have r: "fst (processEvent example_executor_config example_trend_event example_executor_world) = Inr ()"
    by (simp add: example_trend_event_def trendEvent_def processEvent_def processAction_def
          whenever_def bind_def ret_def storeAlert_def x_now_def db_insert_ok f
          alertTypes_defs actionTypes_defs)
  from processEvent_trend_alert [OF a r] obtain rows where
    1: "alerts (snd (processEvent example_executor_config example_trend_event
          example_executor_world)) = rows"
    and 2: "\<forall>r \<in> set rows. a_alert_type r = alertTypes_TREND_ANOMALY \<and> a_threshold r = Some (Fin 0)"
    and 3: "map a_action_taken rows = [actionTypes_TREND_ALERT]"
    by (auto simp: al acts alertActions_def)
  from 3 obtain row where rows: "rows = [row]" by (cases rows) auto
  show ?thesis using a r f acts 2 3 unfolding 1 rows
    by (simp add: alertTypes_defs actionTypes_defs)
qed

subsection \<open>Isolation of the items of a batch\<close>

lemma processMessages_completed:
  "processMessages h msgs processed w =
     (processed @ map entryOf (completed h msgs w), foldl (\<lambda>s m. snd (h m s)) w msgs)"
proof (induction msgs arbitrary: processed w)
  case Nil
  then show ?case by (simp add: completed_def)
next
  case (Cons m ms)
  obtain r u where hm: "h m w = (r, u)" by (cases "h m w")
  have c: "completed h (m # ms) w = (if succeeded r then [m] else []) @ completed h ms u"
    using hm by (simp add: completed_def)
  show ?case
  proof (cases r)
    case (Inl e)
    then show ?thesis using hm c Cons.IH by (simp add: succeeded_def)
  next
    case (Inr x)
    then show ?thesis using hm c Cons.IH by (simp add: succeeded_def entryOf_def)
  qed
qed

lemma length_itemWorlds: "length (itemWorlds h ms w) = length ms"
  by (induction ms arbitrary: w) simp_all

lemma foldl_preserves:
  assumes "\<And>m s. f (snd (h m s)) = f s"
  shows "f (foldl (\<lambda>s m. snd (h m s)) w ms) = f w"
  by (induction ms arbitrary: w) (simp_all add: assms)

lemma bind_preserves:
  assumes "\<And>w. f (snd (m w)) = f w" and "\<And>x w. f (snd (g x w)) = f w"
  shows "f (snd (bind m g w)) = f w"
proof (cases "m w")
  case (Pair r u)
  then have u: "f u = f w" using assms(1) [of w] by simp
  show ?thesis
  proof (cases r)
    case (Inl e)
    with Pair u show ?thesis by (simp add: bind_def)
  next
    case (Inr x)
    with Pair u assms(2) [of x u] show ?thesis by (simp add: bind_def)
  qed
qed

lemmas bind_delete_calls = bind_preserves [where f = delete_calls]

lemmas bind_x_delete_calls = bind_preserves [where f = x_delete_calls]

lemma redis_get_delete_calls: "delete_calls (snd (redis_get k w)) = delete_calls w"
  by (simp add: redis_get_def next_fault_def Let_def split: list.splits)

lemma now_delete_calls: "delete_calls (snd (now w)) = delete_calls w"
  by (simp add: now_def)

lemma ret_delete_calls: "delete_calls (snd (ret x w)) = delete_calls w"
  by (simp add: ret_def)

lemma publishEvent_delete_calls: "delete_calls (snd (publishEvent e w)) = delete_calls w"
  by (simp add: publishEvent_def sqs_send_event_def next_fault_def Let_def split: list.splits)

lemma db_query_recent_delete_calls: "delete_calls (snd (db_query_recent s w)) = delete_calls w"
  by (simp add: db_query_recent_def next_fault_def Let_def split: list.splits)

lemma getThresholds_delete_calls: "delete_calls (snd (getThresholds s w)) = delete_calls w"
  unfolding getThresholds_def
  by (intro bind_delete_calls redis_get_delete_calls ret_delete_calls)

lemma checkTemperatureTrend_delete_calls:
  "delete_calls (snd (checkTemperatureTrend cfg s w)) = delete_calls w"
  unfolding checkTemperatureTrend_def
  by (rule bind_delete_calls, rule db_query_recent_delete_calls)
     (simp add: Let_def ret_delete_calls bind_delete_calls now_delete_calls publishEvent_delete_calls)

lemma processTelemetry_delete_calls:
  "delete_calls (snd (processTelemetry cfg tel w)) = delete_calls w"
  unfolding processTelemetry_def
  by (intro bind_delete_calls getThresholds_delete_calls now_delete_calls publishEvent_delete_calls
        checkTemperatureTrend_delete_calls)

lemma workerHandler_delete_calls:
  "delete_calls (snd (workerHandler cfg msg w)) = delete_calls w"
  unfolding workerHandler_def
  by (rule bind_delete_calls)
     (simp_all add: JSON_parse_def raise_def ret_def processTelemetry_delete_calls
        split: option.splits)

lemma db_insert_x_delete_calls:
  "(\<And>u. x_delete_calls (ins u) = x_delete_calls u) \<Longrightarrow>
   x_delete_calls (snd (db_insert ins w)) = x_delete_calls w"
  by (simp add: db_insert_def next_fault_def Let_def split: list.splits)

lemma x_now_x_delete_calls: "x_delete_calls (snd (x_now w)) = x_delete_calls w"
  by (simp add: x_now_def)

lemma ret_x_delete_calls: "x_delete_calls (snd (ret x w)) = x_delete_calls w"
  by (simp add: ret_def)

lemma thresholdOf_x_delete_calls: "x_delete_calls (snd (thresholdOf ev c w)) = x_delete_calls w"
  by (simp add: thresholdOf_def raise_def ret_def split: option.splits)

lemma storeTelemetry_x_delete_calls:
  "x_delete_calls (snd (storeTelemetry tel w)) = x_delete_calls w"
  unfolding storeTelemetry_def
  by (intro bind_x_delete_calls x_now_x_delete_calls db_insert_x_delete_calls) simp

lemma storeTemperatureAction_x_delete_calls:
  "x_delete_calls (snd (storeTemperatureAction tel tg w)) = x_delete_calls w"
  unfolding storeTemperatureAction_def
  by (intro bind_x_delete_calls x_now_x_delete_calls db_insert_x_delete_calls) simp

lemma storeAlert_x_delete_calls:
  "x_delete_calls (snd (storeAlert tel ev a w)) = x_delete_calls w"
  unfolding storeAlert_def Let_def
  apply (rule bind_x_delete_calls)
   apply (simp add: thresholdOf_x_delete_calls ret_x_delete_calls)
  apply (intro bind_x_delete_calls x_now_x_delete_calls db_insert_x_delete_calls)
  apply simp
  done

lemma sendNotification_x_delete_calls:
  "x_delete_calls (snd (sendNotification cfg tel ev w)) = x_delete_calls w"
  by (simp add: sendNotification_def split: option.splits prod.splits)

lemma whenever_x_delete_calls:
  "(\<And>w. x_delete_calls (snd (m w)) = x_delete_calls w) \<Longrightarrow>
   x_delete_calls (snd (whenever b m w)) = x_delete_calls w"
  by (simp add: whenever_def ret_def)

lemma processAction_x_delete_calls:
  "x_delete_calls (snd (processAction cfg tel ev a w)) = x_delete_calls w"
  unfolding processAction_def
  by (intro bind_x_delete_calls whenever_x_delete_calls storeTelemetry_x_delete_calls
        storeAlert_x_delete_calls sendNotification_x_delete_calls thresholdOf_x_delete_calls
        storeTemperatureAction_x_delete_calls)

lemma processActions_x_delete_calls:
  "x_delete_calls (snd (processActions cfg tel ev acts w)) = x_delete_calls w"
proof (induction acts arbitrary: w)
  case Nil
  show ?case by (simp add: ret_def)
next
  case (Cons a acts)
  show ?case unfolding processActions.simps
    by (rule bind_x_delete_calls, rule processAction_x_delete_calls, rule Cons.IH)
qed

lemma executorHandler_x_delete_calls:
  "x_delete_calls (snd (executorHandler cfg msg w)) = x_delete_calls w"
  unfolding executorHandler_def
  by (rule bind_x_delete_calls)
     (simp_all add: JSON_parse_def raise_def ret_def processEvent_def processActions_x_delete_calls
        split: option.splits)

text \<open>
  Claim C6: in a batch of the worker as in a batch of the executor, every message is
  handled, in the world left by the messages before it, whether or not the handling of
  another message raises an error; the entries collected for the delete call are, in
  order, the entries of exactly the messages whose handling returned without an error;
  and when the receive call succeeds, the iteration makes one delete call with these
  entries when there is one, and no delete call otherwise.
\<close>

theorem batch_items_isolated:
  "fst (processMessages (workerHandler wcfg) tmsgs [] w) =
     map entryOf (completed (workerHandler wcfg) tmsgs w) \<and>
   snd (processMessages (workerHandler wcfg) tmsgs [] w) =
     foldl (\<lambda>s m. snd (workerHandler wcfg m s)) w tmsgs \<and>
   length (itemWorlds (workerHandler wcfg) tmsgs w) = length tmsgs \<and>
   fst (processMessages (executorHandler xcfg) emsgs [] x) =
     map entryOf (completed (executorHandler xcfg) emsgs x) \<and>
   snd (processMessages (executorHandler xcfg) emsgs [] x) =
     foldl (\<lambda>s m. snd (executorHandler xcfg m s)) x emsgs \<and>
   length (itemWorlds (executorHandler xcfg) emsgs x) = length emsgs \<and>
   (\<not> fst (next_fault (sqs_faults w)) \<longrightarrow>
      delete_calls (workerIteration wcfg (Some tmsgs) w) =
        delete_calls w @
          (if completed (workerHandler wcfg) tmsgs (w\<lparr>sqs_faults := snd (next_fault (sqs_faults w))\<rparr>) = []
           then []
           else [map entryOf (completed (workerHandler wcfg) tmsgs
                                (w\<lparr>sqs_faults := snd (next_fault (sqs_faults w))\<rparr>))])) \<and>
   (\<not> fst (next_fault (x_sqs_faults x)) \<longrightarrow>
      x_delete_calls (executorIteration xcfg (Some emsgs) x) =
        x_delete_calls x @
          (if completed (executorHandler xcfg) emsgs (x\<lparr>x_sqs_faults := snd (next_fault (x_sqs_faults x))\<rparr>) = []
           then []
           else [map entryOf (completed (executorHandler xcfg) emsgs
                                (x\<lparr>x_sqs_faults := snd (next_fault (x_sqs_faults x))\<rparr>))]))"
proof -
  have w: "\<not> fst (next_fault (sqs_faults w)) \<longrightarrow>
      delete_calls (workerIteration wcfg (Some tmsgs) w) =
        delete_calls w @
          (if completed (workerHandler wcfg) tmsgs (w\<lparr>sqs_faults := snd (next_fault (sqs_faults w))\<rparr>) = []
           then []
           else [map entryOf (completed (workerHandler wcfg) tmsgs
                                (w\<lparr>sqs_faults := snd (next_fault (sqs_faults w))\<rparr>))])"
  proof
    assume ok: "\<not> fst (next_fault (sqs_faults w))"
    define w1 where "w1 = w\<lparr>sqs_faults := snd (next_fault (sqs_faults w))\<rparr>"
    have d: "delete_calls (foldl (\<lambda>s m. snd (workerHandler wcfg m s)) w1 tmsgs) = delete_calls w1"
      by (rule foldl_preserves) (rule workerHandler_delete_calls)
    have c: "tmsgs = [] \<Longrightarrow> completed (workerHandler wcfg) tmsgs w1 = []"
      by (simp add: completed_def)
    show "delete_calls (workerIteration wcfg (Some tmsgs) w) =
        delete_calls w @
          (if completed (workerHandler wcfg) tmsgs (w\<lparr>sqs_faults := snd (next_fault (sqs_faults w))\<rparr>) = []
           then []
           else [map entryOf (completed (workerHandler wcfg) tmsgs
                                (w\<lparr>sqs_faults := snd (next_fault (sqs_faults w))\<rparr>))])"
      using ok d c unfolding w1_def [symmetric]
      by (auto simp: workerIteration_def case_prod_beta w1_def [symmetric] processMessages_completed)
         (simp_all add: w1_def)
  qed
  have x: "\<not> fst (next_fault (x_sqs_faults x)) \<longrightarrow>
      x_delete_calls (executorIteration xcfg (Some emsgs) x) =
        x_delete_calls x @
          (if completed (executorHandler xcfg) emsgs (x\<lparr>x_sqs_faults := snd (next_fault (x_sqs_faults x))\<rparr>) = []
           then []
           else [map entryOf (completed (executorHandler xcfg) emsgs
                                (x\<lparr>x_sqs_faults := snd (next_fault (x_sqs_faults x))\<rparr>))])"
  proof
    assume ok: "\<not> fst (next_fault (x_sqs_faults x))"
    define x1 where "x1 = x\<lparr>x_sqs_faults := snd (next_fault (x_sqs_faults x))\<rparr>"
    have d: "x_delete_calls (foldl (\<lambda>s m. snd (executorHandler xcfg m s)) x1 emsgs) = x_delete_calls x1"
      by (rule foldl_preserves) (rule executorHandler_x_delete_calls)
    have c: "emsgs = [] \<Longrightarrow> completed (executorHandler xcfg) emsgs x1 = []"
      by (simp add: completed_def)
    show "x_delete_calls (executorIteration xcfg (Some emsgs) x) =
        x_delete_calls x @
          (if completed (executorHandler xcfg) emsgs (x\<lparr>x_sqs_faults := snd (next_fault (x_sqs_faults x))\<rparr>) = []
           then []
           else [map entryOf (completed (executorHandler xcfg) emsgs
                                (x\<lparr>x_sqs_faults := snd (next_fault (x_sqs_faults x))\<rparr>))])"
      using ok d c unfolding x1_def [symmetric]
      by (auto simp: executorIteration_def case_prod_beta x1_def [symmetric] processMessages_completed)
         (simp_all add: x1_def)
  qed
  from w x show ?thesis
    by (simp add: processMessages_completed length_itemWorlds)
qed

lemma example_trend_event_eq:
  "example_trend_event =
     \<lparr>event_type = ''TREND_ANOMALY'',
      telemetry = \<lparr>ship_id = ''ship_1'', sensor_id = None, temp = Fin (-3),
                    timestamp = ''2026-01-01T00:00:00.500Z''\<rparr>,
      evaluation = \<lparr>alert_type = ''TREND_ANOMALY'', thresholds = None,
                     actions = [''TREND_ALERT''], message = Some (TrendText (Fin 6) 5)\<rparr>,
      processed_at = ''2026-01-01T00:00:00.500Z''\<rparr>"
  by (simp add: example_trend_event_def trendEvent_def example_worker_config_def
        alertTypes_defs actionTypes_defs)

lemma example_batch_completed:
  "completed (executorHandler example_executor_config) example_batch example_executor_world =
     [\<lparr>MessageId = ''m1'', ReceiptHandle = ''h1'', Body = Some example_critical_event\<rparr>,
      \<lparr>MessageId = ''m3'', ReceiptHandle = ''h3'', Body = Some example_trend_event\<rparr>]"
  by (simp add: completed_def succeeded_def example_batch_def executorHandler_def JSON_parse_def
        bind_def ret_def raise_def example_critical_event_eq example_trend_event_eq
        processEvent_def processAction_def whenever_def storeTelemetry_def storeAlert_def
        storeTemperatureAction_def sendNotification_def x_now_def db_insert_def next_fault_def
        thresholdOf_def messageOr_def example_telemetry_def example_executor_world_def
        example_executor_config_def alertTypes_defs actionTypes_defs)

lemma example_telemetry_batch_completed:
  "completed (workerHandler example_worker_config) example_telemetry_batch example_worker_world =
     [\<lparr>MessageId = ''t1'', ReceiptHandle = ''r1'', Body = Some example_telemetry\<rparr>,
      \<lparr>MessageId = ''t3'', ReceiptHandle = ''r3'', Body = Some example_telemetry\<rparr>]"
  by (simp add: completed_def succeeded_def example_telemetry_batch_def workerHandler_def
        JSON_parse_def bind_def ret_def raise_def processTelemetry_def getThresholds_def
        redis_get_def now_def publishEvent_def sqs_send_event_def checkTemperatureTrend_def
        db_query_recent_def next_fault_def trendMinReadings_def example_worker_world_def)

text \<open>
  In a batch of three messages whose second body is not JSON, the first and the third
  message are handled and acknowledged, and the second is not acknowledged.
\<close>

theorem batch_items_isolated_witness:
  "\<not> fst (next_fault (sqs_faults example_worker_world)) \<and>
   \<not> fst (next_fault (x_sqs_faults example_executor_world)) \<and>
   delete_calls (workerIteration example_worker_config (Some example_telemetry_batch)
                   example_worker_world) =
     [ [\<lparr>entry_Id = ''t1'', entry_ReceiptHandle = ''r1''\<rparr>,
       \<lparr>entry_Id = ''t3'', entry_ReceiptHandle = ''r3''\<rparr>] ] \<and>
   x_delete_calls (executorIteration example_executor_config (Some example_batch)
                     example_executor_world) =
     [ [\<lparr>entry_Id = ''m1'', entry_ReceiptHandle = ''h1''\<rparr>,
       \<lparr>entry_Id = ''m3'', entry_ReceiptHandle = ''h3''\<rparr>] ]"
proof -
  have a: "\<not> fst (next_fault (sqs_faults example_worker_world))"
    and a': "example_worker_world\<lparr>sqs_faults := snd (next_fault (sqs_faults example_worker_world))\<rparr>
               = example_worker_world"
    and d: "delete_calls example_worker_world = []"
    by (simp_all add: example_worker_world_def next_fault_def)
  have b: "\<not> fst (next_fault (x_sqs_faults example_executor_world))"
    and b': "example_executor_world\<lparr>x_sqs_faults := snd (next_fault (x_sqs_faults example_executor_world))\<rparr>
               = example_executor_world"
    and e: "x_delete_calls example_executor_world = []"
    by (simp_all add: example_executor_world_def next_fault_def)
  from batch_items_isolated
    [of example_worker_config example_telemetry_batch example_worker_world
        example_executor_config example_batch example_executor_world]
  show ?thesis using a b
    by (simp add: a' b' d e example_batch_completed example_telemetry_batch_completed entryOf_def)
qed

end
